theory Spec2Isabelle
  imports Main "HOL-Library.Sublist"
begin

section \<open>Configuration (main.go, lines 34-52)\<close>

text \<open>
  The three structs read from the input YAML. \<open>SourceRemote\<close> and \<open>TargetRemote\<close>
  are pointers in the source, so a repository entry that leaves one out holds \<open>nil\<close>
  (\<open>None\<close>), and reading a field through it panics. \<open>Repos\<close> is a Go map: the list
  below is the map in the order in which one run iterates over it. \<open>BranchMapping\<close> is a
  Go map that is only ever looked up.
\<close>

record Remote =
  remote_Name :: string
  remote_Url :: string

record Repo =
  repo_Name :: string
  repo_Path :: string
  SourceRemote :: "Remote option"
  TargetRemote :: "Remote option"

record RepoSync =
  Repos :: "(string \<times> Repo) list"
  BranchMapping :: "string \<rightharpoonup> string"

text \<open>\<open>mapBranch\<close> (lines 75-81): the mapped name, or the same name when there is none.\<close>

definition mapBranch :: "RepoSync \<Rightarrow> string \<Rightarrow> string" where
  "mapBranch rs branchName =
     (case BranchMapping rs branchName of Some v \<Rightarrow> v | None \<Rightarrow> branchName)"

section \<open>The Git library as a collaborator\<close>

text \<open>
  Every Git operation is a call into the go-git library. An \<open>error\<close> value of Go is
  \<open>nil\<close> (\<open>None\<close>), the sentinel \<open>git.NoErrAlreadyUpToDate\<close>, or any other error.
  A call returning a value and an error is a sum, \<open>Inl\<close> the error.
\<close>

datatype giterr = NoErrAlreadyUpToDate | GitError string

record Reference =
  ref_Name :: string
  ref_Hash :: string

record RemoteConfig =
  rc_Name :: string
  rc_URLs :: "string list"

record CheckoutOptions =
  co_Hash :: string
  co_Branch :: string
  co_Create :: bool
  co_Force :: bool
  co_Keep :: bool

record PullOptions =
  pl_RemoteName :: string
  pl_ReferenceName :: string
  pl_SingleBranch :: bool
  pl_Force :: bool

datatype ResetMode = MixedReset | HardReset | MergeReset | SoftReset

record ResetOptions =
  rs_Commit :: string
  rs_Mode :: ResetMode

record PushOptions =
  ps_RemoteName :: string
  ps_RefSpecs :: "string list"
  ps_Force :: bool
  ps_Atomic :: bool
  ps_FollowTags :: bool

text \<open>
  \<open>ReferenceName.IsBranch\<close> of the library tests the prefix \<open>refs/heads/\<close>.

  Modelled from the spec: \<open>ReferenceName.Short\<close> belongs to the library; the glossary
  gives it as the branch or tag name with its \<open>refs/heads/\<close> or \<open>refs/tags/\<close> prefix
  stripped.
\<close>

definition IsBranch :: "string \<Rightarrow> bool" where
  "IsBranch n = prefix ''refs/heads/'' n"

definition Short :: "string \<Rightarrow> string" where
  "Short n =
     (if prefix ''refs/heads/'' n then drop 11 n
      else if prefix ''refs/tags/'' n then drop 10 n
      else n)"

text \<open>The hash a \<open>CheckoutOptions\<close> holds when the field is not set.\<close>

definition ZeroHash :: string where
  "ZeroHash = []"

text \<open>
  The operations \<open>main\<close> calls, over a state \<open>'w\<close> of the library's world (the
  repositories on disk and the remotes on the network). The first argument is the path the
  repository was opened from; it stands for the \<open>*git.Repository\<close> and for its worktree.
  The program is verified for every such collaborator. \<open>git_Fetch\<close> takes the remote it
  is called on: its options are \<open>RemoteName = remote.String()\<close> and \<open>Tags = AllTags\<close>.
\<close>

record 'w git =
  git_PlainOpen :: "string \<Rightarrow> 'w \<Rightarrow> giterr option \<times> 'w"
  git_Remotes :: "string \<Rightarrow> 'w \<Rightarrow> (giterr + RemoteConfig list) \<times> 'w"
  git_Remote :: "string \<Rightarrow> string \<Rightarrow> 'w \<Rightarrow> giterr option \<times> 'w"
  git_CreateRemote :: "string \<Rightarrow> RemoteConfig \<Rightarrow> 'w \<Rightarrow> giterr option \<times> 'w"
  git_Fetch :: "string \<Rightarrow> RemoteConfig \<Rightarrow> 'w \<Rightarrow> giterr option \<times> 'w"
  git_List :: "string \<Rightarrow> RemoteConfig \<Rightarrow> 'w \<Rightarrow> (giterr + Reference list) \<times> 'w"
  git_Worktree :: "string \<Rightarrow> 'w \<Rightarrow> giterr option \<times> 'w"
  git_Branches :: "string \<Rightarrow> 'w \<Rightarrow> (giterr + Reference list) \<times> 'w"
  git_Checkout :: "string \<Rightarrow> CheckoutOptions \<Rightarrow> 'w \<Rightarrow> giterr option \<times> 'w"
  git_Head :: "string \<Rightarrow> 'w \<Rightarrow> (giterr + Reference) \<times> 'w"
  git_Pull :: "string \<Rightarrow> PullOptions \<Rightarrow> 'w \<Rightarrow> giterr option \<times> 'w"
  git_Reset :: "string \<Rightarrow> ResetOptions \<Rightarrow> 'w \<Rightarrow> giterr option \<times> 'w"
  git_Push :: "string \<Rightarrow> PushOptions \<Rightarrow> 'w \<Rightarrow> giterr option \<times> 'w"
  git_Status :: "string \<Rightarrow> 'w \<Rightarrow> giterr option \<times> 'w"
  git_Tags :: "string \<Rightarrow> 'w \<Rightarrow> (giterr + Reference list) \<times> 'w"

section \<open>Runs: results, events, sequencing\<close>

text \<open>
  What a run leaves behind is the list of its events: every library call with its arguments
  and its result, and every log line with its level. A piece of the program either returns
  a value, or ends the process by \<open>os.Exit\<close>, or by a runtime panic (a nil dereference),
  which the Go runtime turns into exit status 2.
\<close>

datatype level = LInfo | LError

datatype event =
    ELog level
  | EPlainOpen string "giterr option"
  | ERemotes string "giterr + RemoteConfig list"
  | ERemote string string "giterr option"
  | ECreateRemote string RemoteConfig "giterr option"
  | EFetch string RemoteConfig "giterr option"
  | EList string RemoteConfig "giterr + Reference list"
  | EWorktree string "giterr option"
  | EBranches string "giterr + Reference list"
  | ECheckout string CheckoutOptions "giterr option"
  | EHead string "giterr + Reference"
  | EPull string PullOptions "giterr option"
  | EReset string ResetOptions "giterr option"
  | EPush string PushOptions "giterr option"
  | EStatus string "giterr option"
  | ETags string "giterr + Reference list"

datatype 'a res = Ret 'a | Exit nat | Panic

type_synonym ('w, 'a) act = "'w \<Rightarrow> 'a res \<times> event list \<times> 'w"

definition ret :: "'a \<Rightarrow> ('w, 'a) act" where
  "ret a w = (Ret a, [], w)"

definition bnd :: "('w, 'a) act \<Rightarrow> ('a \<Rightarrow> ('w, 'b) act) \<Rightarrow> ('w, 'b) act" where
  "bnd m f w =
     (case m w of
        (Ret a, es, w') \<Rightarrow> (case f a w' of (r, es', w'') \<Rightarrow> (r, es @ es', w''))
      | (Exit n, es, w') \<Rightarrow> (Exit n, es, w')
      | (Panic, es, w') \<Rightarrow> (Panic, es, w'))"

definition osExit :: "nat \<Rightarrow> ('w, 'a) act" where
  "osExit n w = (Exit n, [], w)"

definition panic :: "('w, 'a) act" where
  "panic w = (Panic, [], w)"

definition logInfo :: "('w, unit) act" where
  "logInfo w = (Ret (), [ELog LInfo], w)"

definition logError :: "('w, unit) act" where
  "logError w = (Ret (), [ELog LError], w)"

text \<open>\<open>log.Errorf\<close> followed by \<open>os.Exit(1)\<close>.\<close>

definition fatal :: "('w, 'a) act" where
  "fatal = bnd logError (\<lambda>_. osExit 1)"

text \<open>Reading a field through a pointer of the configuration.\<close>

definition deref :: "'a option \<Rightarrow> ('w, 'a) act" where
  "deref p = (case p of None \<Rightarrow> panic | Some v \<Rightarrow> ret v)"

text \<open>A library call: the world moves on, the call and its result are recorded.\<close>

definition call :: "('w \<Rightarrow> 'r \<times> 'w) \<Rightarrow> ('r \<Rightarrow> event) \<Rightarrow> ('w, 'r) act" where
  "call op ev w = (case op w of (r, w') \<Rightarrow> (Ret r, [ev r], w'))"

definition outcome :: "'a res \<times> event list \<times> 'w \<Rightarrow> 'a res" where
  "outcome x = fst x"

definition events :: "'a res \<times> event list \<times> 'w \<Rightarrow> event list" where
  "events x = fst (snd x)"

definition final :: "'a res \<times> event list \<times> 'w \<Rightarrow> 'w" where
  "final x = snd (snd x)"

definition exit_code :: "'a res \<Rightarrow> nat" where
  "exit_code r = (case r of Ret _ \<Rightarrow> 0 | Exit n \<Rightarrow> n | Panic \<Rightarrow> 2)"

section \<open>repoGetLocalBranchForRemote (main.go, lines 85-116)\<close>

text \<open>
  Both calls of \<open>repo.Branches()\<close> only log an error; the iterator is then \<open>nil\<close> and
  \<open>ForEach\<close> on it panics. The first traversal fills \<open>localBranches\<close>, which nothing
  reads. The second keeps the last local branch whose name equals the remote branch's.
\<close>

definition repoGetLocalBranchForRemote ::
  "'w git \<Rightarrow> string \<Rightarrow> Reference \<Rightarrow> ('w, Reference option \<times> giterr option) act" where
  "repoGetLocalBranchForRemote g repo remoteBranch =
     bnd (call (git_Branches g repo) (EBranches repo)) (\<lambda>branches.
     bnd (case branches of Inl err \<Rightarrow> logError | Inr _ \<Rightarrow> ret ()) (\<lambda>_.
     bnd (case branches of
            Inl err \<Rightarrow> panic
          | Inr bs \<Rightarrow>
              ret (filter (\<lambda>r. IsBranch (ref_Name r) \<and> prefix ''refs/heads/'' (ref_Name r)) bs))
       (\<lambda>localBranches.
     bnd (call (git_Branches g repo) (EBranches repo)) (\<lambda>branches.
     bnd (case branches of Inl err \<Rightarrow> logError | Inr _ \<Rightarrow> ret ()) (\<lambda>_.
     case branches of
       Inl err \<Rightarrow> panic
     | Inr bs \<Rightarrow>
         ret (foldl (\<lambda>foundLocalBranch localBranch.
                       if ref_Name localBranch = ref_Name remoteBranch
                       then Some localBranch else foundLocalBranch) None bs,
              None))))))"

section \<open>main (main.go, lines 118-322), block by block\<close>

text \<open>Lines 139-147: add the target remote if looking it up fails.\<close>

definition main_addTargetRemote :: "'w git \<Rightarrow> Repo \<Rightarrow> ('w, unit) act" where
  "main_addTargetRemote g rs =
     bnd (deref (TargetRemote rs)) (\<lambda>target.
     bnd (call (git_Remote g (repo_Path rs) (remote_Name target))
            (ERemote (repo_Path rs) (remote_Name target))) (\<lambda>err.
     if err \<noteq> None then
       bnd logInfo (\<lambda>_.
       bnd (call (git_CreateRemote g (repo_Path rs)
                    \<lparr>rc_Name = remote_Name target, rc_URLs = [remote_Url target]\<rparr>)
              (ECreateRemote (repo_Path rs)
                    \<lparr>rc_Name = remote_Name target, rc_URLs = [remote_Url target]\<rparr>)) (\<lambda>_.
       ret ()))
     else ret ()))"

text \<open>
  Lines 149-177: fetch every remote; after the fetch of a remote that bears the source
  remote's name, list its references and keep the branches, one log line for each.
\<close>

definition logInfos :: "'a list \<Rightarrow> ('w, unit) act" where
  "logInfos xs w = (Ret (), map (\<lambda>_. ELog LInfo) xs, w)"

fun main_fetchAll ::
  "'w git \<Rightarrow> Repo \<Rightarrow> RemoteConfig list \<Rightarrow> Reference list \<Rightarrow> ('w, Reference list) act" where
  "main_fetchAll g rs [] branchesToSync = ret branchesToSync"
| "main_fetchAll g rs (remote # remotes) branchesToSync =
     bnd logInfo (\<lambda>_.
     bnd (call (git_Fetch g (repo_Path rs) remote) (EFetch (repo_Path rs) remote)) (\<lambda>err.
     if err \<noteq> None \<and> err \<noteq> Some NoErrAlreadyUpToDate then fatal
     else
       bnd (deref (SourceRemote rs)) (\<lambda>source.
       if rc_Name remote = remote_Name source then
         bnd (call (git_List g (repo_Path rs) remote) (EList (repo_Path rs) remote))
           (\<lambda>listed.
         case listed of
           Inl err \<Rightarrow> fatal
         | Inr remoteRefs \<Rightarrow>
             bnd (logInfos (filter (\<lambda>r. IsBranch (ref_Name r)) remoteRefs)) (\<lambda>_.
             main_fetchAll g rs remotes
               (branchesToSync @ filter (\<lambda>r. IsBranch (ref_Name r)) remoteRefs)))
       else main_fetchAll g rs remotes branchesToSync)))"

text \<open>The options of the two checkouts (lines 195-201 and 218-223).\<close>

definition createOptions :: "Reference \<Rightarrow> CheckoutOptions" where
  "createOptions remoteBranch =
     \<lparr>co_Hash = ref_Hash remoteBranch, co_Branch = ref_Name remoteBranch,
      co_Create = True, co_Force = True, co_Keep = False\<rparr>"

definition switchOptions :: "Reference \<Rightarrow> CheckoutOptions" where
  "switchOptions localBranch =
     \<lparr>co_Hash = ZeroHash, co_Branch = ref_Name localBranch,
      co_Create = False, co_Force = True, co_Keep = False\<rparr>"

text \<open>Lines 194-215: no local branch was found; create it at the remote branch's commit.\<close>

definition main_createLocal :: "'w git \<Rightarrow> Repo \<Rightarrow> Reference \<Rightarrow> ('w, Reference) act" where
  "main_createLocal g rs remoteBranch =
     bnd logInfo (\<lambda>_.
     bnd (call (git_Checkout g (repo_Path rs) (createOptions remoteBranch))
            (ECheckout (repo_Path rs) (createOptions remoteBranch))) (\<lambda>err.
     if err \<noteq> None then fatal
     else
       bnd (call (git_Head g (repo_Path rs)) (EHead (repo_Path rs))) (\<lambda>head.
       case head of
         Inl err \<Rightarrow> fatal
       | Inr localBranch \<Rightarrow>
           if ref_Hash localBranch \<noteq> ref_Hash remoteBranch
              \<or> ref_Name localBranch \<noteq> ref_Name remoteBranch
           then fatal
           else ret localBranch)))"

text \<open>Lines 217-227: a local branch was found; switch to it.\<close>

definition main_switchLocal :: "'w git \<Rightarrow> Repo \<Rightarrow> Reference \<Rightarrow> ('w, Reference) act" where
  "main_switchLocal g rs localBranch =
     bnd logInfo (\<lambda>_.
     bnd (call (git_Checkout g (repo_Path rs) (switchOptions localBranch))
            (ECheckout (repo_Path rs) (switchOptions localBranch))) (\<lambda>err.
     if err \<noteq> None then fatal else ret localBranch))"

text \<open>The ref-spec of lines 252-256 and the push options of lines 259-264.\<close>

definition requiredRefSpecStr :: "RepoSync \<Rightarrow> Reference \<Rightarrow> Reference \<Rightarrow> string" where
  "requiredRefSpecStr repoSync localBranch remoteBranch =
     ''+'' @ ref_Name localBranch @ '':refs/heads/''
       @ mapBranch repoSync (Short (ref_Name remoteBranch))"

definition branchPushOptions :: "RepoSync \<Rightarrow> Remote \<Rightarrow> Reference \<Rightarrow> Reference \<Rightarrow> PushOptions" where
  "branchPushOptions repoSync target localBranch remoteBranch =
     \<lparr>ps_RemoteName = remote_Name target,
      ps_RefSpecs = [requiredRefSpecStr repoSync localBranch remoteBranch],
      ps_Force = True, ps_Atomic = True, ps_FollowTags = False\<rparr>"

text \<open>The options of the pull (lines 231-236) and of the reset (lines 243-246).\<close>

definition pullOptions :: "Remote \<Rightarrow> Reference \<Rightarrow> PullOptions" where
  "pullOptions source remoteBranch =
     \<lparr>pl_RemoteName = remote_Name source, pl_ReferenceName = ref_Name remoteBranch,
      pl_SingleBranch = True, pl_Force = True\<rparr>"

definition resetOptions :: "Reference \<Rightarrow> ResetOptions" where
  "resetOptions localBranch = \<lparr>rs_Commit = ref_Hash localBranch, rs_Mode = HardReset\<rparr>"

text \<open>Lines 230-290: pull, reset to the hash \<open>localBranch\<close> holds, push, status.\<close>

definition main_pullResetPush ::
  "'w git \<Rightarrow> RepoSync \<Rightarrow> Repo \<Rightarrow> Reference \<Rightarrow> Reference \<Rightarrow> ('w, unit) act" where
  "main_pullResetPush g repoSync rs remoteBranch localBranch =
     bnd (deref (SourceRemote rs)) (\<lambda>source.
     bnd logInfo (\<lambda>_.
     bnd (call (git_Pull g (repo_Path rs) (pullOptions source remoteBranch))
            (EPull (repo_Path rs) (pullOptions source remoteBranch))) (\<lambda>err.
     if err \<noteq> None \<and> err \<noteq> Some NoErrAlreadyUpToDate then fatal
     else
       bnd logInfo (\<lambda>_.
       bnd (call (git_Reset g (repo_Path rs) (resetOptions localBranch))
              (EReset (repo_Path rs) (resetOptions localBranch))) (\<lambda>err.
       if err \<noteq> None then fatal
       else
         bnd logInfo (\<lambda>_.
         bnd (deref (TargetRemote rs)) (\<lambda>target.
         bnd (call (git_Push g (repo_Path rs)
                      (branchPushOptions repoSync target localBranch remoteBranch))
                (EPush (repo_Path rs)
                      (branchPushOptions repoSync target localBranch remoteBranch))) (\<lambda>err.
         bnd (if err \<noteq> None then
                (if err = Some NoErrAlreadyUpToDate then logInfo else fatal)
              else ret ()) (\<lambda>_.
         bnd (call (git_Status g (repo_Path rs)) (EStatus (repo_Path rs))) (\<lambda>err.
         if err \<noteq> None then fatal else logInfo))))))))))"

text \<open>Lines 181-290: the body of the loop over \<open>branchesToSync\<close>.\<close>

definition main_syncBranch ::
  "'w git \<Rightarrow> RepoSync \<Rightarrow> Repo \<Rightarrow> Reference \<Rightarrow> ('w, unit) act" where
  "main_syncBranch g repoSync rs remoteBranch =
     bnd (call (git_Worktree g (repo_Path rs)) (EWorktree (repo_Path rs))) (\<lambda>err.
     if err \<noteq> None then fatal
     else
       bnd (repoGetLocalBranchForRemote g (repo_Path rs) remoteBranch) (\<lambda>(localBranch, err).
       if err \<noteq> None then fatal
       else
         bnd (case localBranch of
                None \<Rightarrow> main_createLocal g rs remoteBranch
              | Some l \<Rightarrow> main_switchLocal g rs l) (\<lambda>localBranch.
         main_pullResetPush g repoSync rs remoteBranch localBranch)))"

fun main_syncBranches ::
  "'w git \<Rightarrow> RepoSync \<Rightarrow> Repo \<Rightarrow> Reference list \<Rightarrow> ('w, unit) act" where
  "main_syncBranches g repoSync rs [] = ret ()"
| "main_syncBranches g repoSync rs (remoteBranch # branchesToSync) =
     bnd (main_syncBranch g repoSync rs remoteBranch) (\<lambda>_.
     main_syncBranches g repoSync rs branchesToSync)"

text \<open>Lines 294-320: push every tag under its own name.\<close>

definition tagsRefSpec :: "Reference \<Rightarrow> string" where
  "tagsRefSpec t = ''+refs/tags/'' @ Short (ref_Name t) @ '':refs/tags/'' @ Short (ref_Name t)"

definition tagPushOptions :: "Remote \<Rightarrow> Reference \<Rightarrow> PushOptions" where
  "tagPushOptions target t =
     \<lparr>ps_RemoteName = remote_Name target, ps_RefSpecs = [tagsRefSpec t],
      ps_Force = True, ps_Atomic = False, ps_FollowTags = True\<rparr>"

fun main_pushTagRefs :: "'w git \<Rightarrow> Repo \<Rightarrow> Reference list \<Rightarrow> ('w, unit) act" where
  "main_pushTagRefs g rs [] = ret ()"
| "main_pushTagRefs g rs (t # tags) =
     bnd (deref (TargetRemote rs)) (\<lambda>target.
     bnd logInfo (\<lambda>_.
     bnd (call (git_Push g (repo_Path rs) (tagPushOptions target t))
            (EPush (repo_Path rs) (tagPushOptions target t))) (\<lambda>err.
     bnd (if err \<noteq> None then
            (if err = Some NoErrAlreadyUpToDate then logInfo else fatal)
          else ret ()) (\<lambda>_.
     main_pushTagRefs g rs tags))))"

definition main_pushTags :: "'w git \<Rightarrow> Repo \<Rightarrow> ('w, unit) act" where
  "main_pushTags g rs =
     bnd (call (git_Tags g (repo_Path rs)) (ETags (repo_Path rs))) (\<lambda>tags.
     case tags of
       Inl err \<Rightarrow> fatal
     | Inr ts \<Rightarrow> main_pushTagRefs g rs ts)"

text \<open>Lines 126-320: the body of the loop over the repositories.\<close>

definition main_repo :: "'w git \<Rightarrow> RepoSync \<Rightarrow> Repo \<Rightarrow> ('w, unit) act" where
  "main_repo g repoSync rs =
     bnd logInfo (\<lambda>_.
     bnd (call (git_PlainOpen g (repo_Path rs)) (EPlainOpen (repo_Path rs))) (\<lambda>err.
     if err \<noteq> None then fatal
     else
       bnd (call (git_Remotes g (repo_Path rs)) (ERemotes (repo_Path rs))) (\<lambda>remotes.
       case remotes of
         Inl err \<Rightarrow> fatal
       | Inr remotes \<Rightarrow>
           bnd (main_addTargetRemote g rs) (\<lambda>_.
           bnd (main_fetchAll g rs remotes []) (\<lambda>branchesToSync.
           bnd logInfo (\<lambda>_.
           bnd (main_syncBranches g repoSync rs branchesToSync) (\<lambda>_.
           main_pushTags g rs)))))))"

fun main_repos :: "'w git \<Rightarrow> RepoSync \<Rightarrow> Repo list \<Rightarrow> ('w, unit) act" where
  "main_repos g repoSync [] = ret ()"
| "main_repos g repoSync (rs # rest) =
     bnd (main_repo g repoSync rs) (\<lambda>_. main_repos g repoSync rest)"

text \<open>
  \<open>main\<close>, after \<open>readInput\<close> has returned the configuration (reading and parsing the
  YAML file is outside the model).
\<close>

definition main :: "'w git \<Rightarrow> RepoSync \<Rightarrow> ('w, unit) act" where
  "main g repoSync = main_repos g repoSync (map snd (Repos repoSync))"

section \<open>What the claims speak about\<close>

text \<open>
  The reconciliation actions of a run, read off its events: a checkout with \<open>Create\<close>
  creates the local branch at a commit, a checkout without it updates an existing one, a
  push with \<open>FollowTags\<close> is a tag push (only the tag loop sets it), any other push is a
  branch push. Pushes are named by their ref-specs.
\<close>

datatype action =
    CreateLocal string string
  | UpdateLocal string
  | PushBranch "string list"
  | PushTag "string list"

fun action_of :: "event \<Rightarrow> action list" where
  "action_of (ECheckout p opts e) =
     [if co_Create opts then CreateLocal (co_Branch opts) (co_Hash opts)
      else UpdateLocal (co_Branch opts)]"
| "action_of (EPush p opts e) =
     [if ps_FollowTags opts then PushTag (ps_RefSpecs opts) else PushBranch (ps_RefSpecs opts)]"
| "action_of _ = []"

definition actions :: "event list \<Rightarrow> action list" where
  "actions es = concat (map action_of es)"

text \<open>The branches a run was told of by remote listings, in the order of the listings.\<close>

fun listed_of :: "event \<Rightarrow> Reference list" where
  "listed_of (EList p rc (Inr refs)) = filter (\<lambda>r. IsBranch (ref_Name r)) refs"
| "listed_of _ = []"

definition listed :: "event list \<Rightarrow> Reference list" where
  "listed es = concat (map listed_of es)"

text \<open>
  The results that end the process where they are checked: any error of a call other than
  the lookup and the creation of the target remote, except \<open>NoErrAlreadyUpToDate\<close> from
  a fetch, a pull or a push.
\<close>

fun fatal_event :: "event \<Rightarrow> bool" where
  "fatal_event (ELog l) = False"
| "fatal_event (EPlainOpen p e) = (e \<noteq> None)"
| "fatal_event (ERemotes p r) = (case r of Inl e \<Rightarrow> True | Inr x \<Rightarrow> False)"
| "fatal_event (ERemote p n e) = False"
| "fatal_event (ECreateRemote p c e) = False"
| "fatal_event (EFetch p c e) = (e \<noteq> None \<and> e \<noteq> Some NoErrAlreadyUpToDate)"
| "fatal_event (EList p c r) = (case r of Inl e \<Rightarrow> True | Inr x \<Rightarrow> False)"
| "fatal_event (EWorktree p e) = (e \<noteq> None)"
| "fatal_event (EBranches p r) = (case r of Inl e \<Rightarrow> True | Inr x \<Rightarrow> False)"
| "fatal_event (ECheckout p opts e) = (e \<noteq> None)"
| "fatal_event (EHead p r) = (case r of Inl e \<Rightarrow> True | Inr x \<Rightarrow> False)"
| "fatal_event (EPull p opts e) = (e \<noteq> None \<and> e \<noteq> Some NoErrAlreadyUpToDate)"
| "fatal_event (EReset p opts e) = (e \<noteq> None)"
| "fatal_event (EPush p opts e) = (e \<noteq> None \<and> e \<noteq> Some NoErrAlreadyUpToDate)"
| "fatal_event (EStatus p e) = (e \<noteq> None)"
| "fatal_event (ETags p r) = (case r of Inl e \<Rightarrow> True | Inr x \<Rightarrow> False)"

section \<open>A small Git, for concrete runs\<close>

text \<open>
  One collaborator among all those the theorems range over, used to run the program on
  concrete repositories. Its world is a single repository: the remotes with the references
  each advertises, the local branches, the name of the checked-out branch and the tags.
  Checkout with \<open>Create\<close> adds the branch at the given hash, checkout without it
  switches to an existing branch, pull moves the checked-out branch to the hash the remote
  advertises for the reference, and a hard reset moves the checked-out branch to the given
  commit. A push needs the remote to exist. Fetch, push and status do not touch the local
  branches.
\<close>

record world =
  w_remotes :: "(RemoteConfig \<times> Reference list) list"
  w_heads :: "Reference list"
  w_HEAD :: string
  w_tags :: "Reference list"

definition set_head :: "string \<Rightarrow> string \<Rightarrow> Reference list \<Rightarrow> Reference list" where
  "set_head n h refs = map (\<lambda>r. if ref_Name r = n then r\<lparr>ref_Hash := h\<rparr> else r) refs"

definition sim_Remote :: "string \<Rightarrow> string \<Rightarrow> world \<Rightarrow> giterr option \<times> world" where
  "sim_Remote p n w =
     (if n \<in> set (map (\<lambda>x. rc_Name (fst x)) (w_remotes w)) then (None, w)
      else (Some (GitError ''remote not found''), w))"

definition sim_CreateRemote :: "string \<Rightarrow> RemoteConfig \<Rightarrow> world \<Rightarrow> giterr option \<times> world" where
  "sim_CreateRemote p c w =
     (if rc_Name c \<in> set (map (\<lambda>x. rc_Name (fst x)) (w_remotes w))
      then (Some (GitError ''remote already exists''), w)
      else (None, w\<lparr>w_remotes := w_remotes w @ [(c, [])]\<rparr>))"

definition sim_List :: "string \<Rightarrow> RemoteConfig \<Rightarrow> world \<Rightarrow> (giterr + Reference list) \<times> world" where
  "sim_List p c w =
     (case find (\<lambda>x. rc_Name (fst x) = rc_Name c) (w_remotes w) of
        None \<Rightarrow> (Inl (GitError ''remote not found''), w)
      | Some x \<Rightarrow> (Inr (snd x), w))"

definition sim_Checkout :: "string \<Rightarrow> CheckoutOptions \<Rightarrow> world \<Rightarrow> giterr option \<times> world" where
  "sim_Checkout p opts w =
     (if co_Create opts then
        (if co_Branch opts \<in> set (map ref_Name (w_heads w))
         then (Some (GitError ''branch already exists''), w)
         else (None, w\<lparr>w_heads := w_heads w @ [\<lparr>ref_Name = co_Branch opts, ref_Hash = co_Hash opts\<rparr>],
                       w_HEAD := co_Branch opts\<rparr>))
      else
        (if co_Branch opts \<in> set (map ref_Name (w_heads w))
         then (None, w\<lparr>w_HEAD := co_Branch opts\<rparr>)
         else (Some (GitError ''reference not found''), w)))"

definition sim_Head :: "string \<Rightarrow> world \<Rightarrow> (giterr + Reference) \<times> world" where
  "sim_Head p w =
     (case find (\<lambda>r. ref_Name r = w_HEAD w) (w_heads w) of
        None \<Rightarrow> (Inl (GitError ''reference not found''), w)
      | Some r \<Rightarrow> (Inr r, w))"

definition sim_Pull :: "string \<Rightarrow> PullOptions \<Rightarrow> world \<Rightarrow> giterr option \<times> world" where
  "sim_Pull p opts w =
     (case find (\<lambda>x. rc_Name (fst x) = pl_RemoteName opts) (w_remotes w) of
        None \<Rightarrow> (Some (GitError ''remote not found''), w)
      | Some x \<Rightarrow>
          (case find (\<lambda>r. ref_Name r = pl_ReferenceName opts) (snd x) of
             None \<Rightarrow> (Some (GitError ''reference not found''), w)
           | Some r \<Rightarrow>
               (if find (\<lambda>l. ref_Name l = w_HEAD w) (w_heads w)
                     = Some \<lparr>ref_Name = w_HEAD w, ref_Hash = ref_Hash r\<rparr>
                then (Some NoErrAlreadyUpToDate, w)
                else (None, w\<lparr>w_heads := set_head (w_HEAD w) (ref_Hash r) (w_heads w)\<rparr>))))"

definition sim_Reset :: "string \<Rightarrow> ResetOptions \<Rightarrow> world \<Rightarrow> giterr option \<times> world" where
  "sim_Reset p opts w =
     (None, w\<lparr>w_heads := set_head (w_HEAD w) (rs_Commit opts) (w_heads w)\<rparr>)"

definition sim_Push :: "string \<Rightarrow> PushOptions \<Rightarrow> world \<Rightarrow> giterr option \<times> world" where
  "sim_Push p opts w =
     (if ps_RemoteName opts \<in> set (map (\<lambda>x. rc_Name (fst x)) (w_remotes w)) then (None, w)
      else (Some (GitError ''remote not found''), w))"

definition sim :: "world git" where
  "sim =
     \<lparr>git_PlainOpen = (\<lambda>p w. (None, w)),
      git_Remotes = (\<lambda>p w. (Inr (map fst (w_remotes w)), w)),
      git_Remote = sim_Remote,
      git_CreateRemote = sim_CreateRemote,
      git_Fetch = (\<lambda>p c w. (None, w)),
      git_List = sim_List,
      git_Worktree = (\<lambda>p w. (None, w)),
      git_Branches = (\<lambda>p w. (Inr (w_heads w), w)),
      git_Checkout = sim_Checkout,
      git_Head = sim_Head,
      git_Pull = sim_Pull,
      git_Reset = sim_Reset,
      git_Push = sim_Push,
      git_Status = (\<lambda>p w. (None, w)),
      git_Tags = (\<lambda>p w. (Inr (w_tags w), w))\<rparr>"

text \<open>The configuration of the README: one repository, \<open>master\<close> mapped to \<open>main\<close>.\<close>

definition foo :: Repo where
  "foo =
     \<lparr>repo_Name = ''foo'', repo_Path = ''local/repos/foo'',
      SourceRemote = Some \<lparr>remote_Name = ''origin'', remote_Url = []\<rparr>,
      TargetRemote = Some \<lparr>remote_Name = ''github'', remote_Url = ''git@github.com:bar/foo.git''\<rparr>\<rparr>"

definition readme :: RepoSync where
  "readme = \<lparr>Repos = [(''foo'', foo)], BranchMapping = [''master'' \<mapsto> ''main'']\<rparr>"

definition origin :: RemoteConfig where
  "origin = \<lparr>rc_Name = ''origin'', rc_URLs = [''git@example.com:bar/foo.git'']\<rparr>"

definition master :: "string \<Rightarrow> Reference" where
  "master h = \<lparr>ref_Name = ''refs/heads/master'', ref_Hash = h\<rparr>"

definition v1 :: Reference where
  "v1 = \<lparr>ref_Name = ''refs/tags/v1'', ref_Hash = ''0a1b2c''\<rparr>"

text \<open>A clone of \<open>origin\<close> with no local branch yet.\<close>

definition fresh_clone :: world where
  "fresh_clone =
     \<lparr>w_remotes = [(origin, [master ''abc123''])], w_heads = [], w_HEAD = [], w_tags = [v1]\<rparr>"

definition github :: RemoteConfig where
  "github = \<lparr>rc_Name = ''github'', rc_URLs = [''git@github.com:bar/foo.git'']\<rparr>"

text \<open>The same clone once the target remote exists.\<close>

definition mirror_ready :: world where
  "mirror_ready = fresh_clone\<lparr>w_remotes := [(origin, [master ''abc123'']), (github, [])]\<rparr>"

text \<open>
  Local references that share the remote branch's commit, and one its short name, but not
  its fully-qualified name.
\<close>

definition lookalikes :: world where
  "lookalikes =
     mirror_ready\<lparr>w_heads := [\<lparr>ref_Name = ''refs/heads/main'', ref_Hash = ''abc123''\<rparr>,
                              \<lparr>ref_Name = ''refs/tags/master'', ref_Hash = ''abc123''\<rparr>],
                  w_HEAD := ''refs/heads/main''\<rparr>"

text \<open>
  A second run: the local \<open>master\<close> exists at an older commit, \<open>origin\<close> has moved on.
\<close>

definition behind :: world where
  "behind = mirror_ready\<lparr>w_heads := [master ''0ld999''], w_HEAD := ''refs/heads/master''\<rparr>"

text \<open>A source remote with two branches and a tag.\<close>

definition develop :: "string \<Rightarrow> Reference" where
  "develop h = \<lparr>ref_Name = ''refs/heads/develop'', ref_Hash = h\<rparr>"


text \<open>A Git whose \<open>CreateRemote\<close> always fails.\<close>

definition sim_no_create :: "world git" where
  "sim_no_create = sim\<lparr>git_CreateRemote := (\<lambda>p c w. (Some (GitError ''config is read-only''), w))\<rparr>"

text \<open>A Git whose \<open>Head\<close> reports a detached \<open>HEAD\<close> at the checked-out commit.\<close>

definition sim_detached :: "world git" where
  "sim_detached =
     sim\<lparr>git_Head := (\<lambda>p w. (case find (\<lambda>r. ref_Name r = w_HEAD w) (w_heads w) of
                                None \<Rightarrow> Inl (GitError ''reference not found'')
                              | Some r \<Rightarrow> Inr \<lparr>ref_Name = ''HEAD'', ref_Hash = ref_Hash r\<rparr>, w))\<rparr>"

text \<open>A Git whose lookup of a remote by name fails although the remote exists.\<close>

definition sim_no_lookup :: "world git" where
  "sim_no_lookup = sim\<lparr>git_Remote := (\<lambda>p n w. (Some (GitError ''config unreadable''), w))\<rparr>"

text \<open>A Git on which everything fetched, pulled and pushed is already up to date.\<close>

definition sim_up_to_date :: "world git" where
  "sim_up_to_date =
     sim\<lparr>git_Fetch := (\<lambda>p c w. (Some NoErrAlreadyUpToDate, w)),
         git_Push := (\<lambda>p opts w. (Some NoErrAlreadyUpToDate, w))\<rparr>"

text \<open>A source remote that advertises a tag and no branch; two local tags.\<close>

definition tags_only :: world where
  "tags_only =
     mirror_ready\<lparr>w_remotes := [(origin, [v1]), (github, [])],
                  w_tags := [v1, \<lparr>ref_Name = ''refs/tags/v2'', ref_Hash = ''3d4e5f''\<rparr>]\<rparr>"

text \<open>A clone whose only remote is the target: no remote bears the source remote's name.\<close>

definition no_source :: world where
  "no_source = fresh_clone\<lparr>w_remotes := [(github, [master ''abc123''])]\<rparr>"

text \<open>The target remote has a branch of its own, which the source remote has not.\<close>

definition target_has_branch :: world where
  "target_has_branch =
     mirror_ready\<lparr>w_remotes := [(origin, [master ''abc123'']), (github, [develop ''def456''])]\<rparr>"

text \<open>A configuration whose repository entry has no \<open>targetRemote\<close>: the pointer is \<open>nil\<close>.\<close>

definition foo_no_target :: Repo where
  "foo_no_target = foo\<lparr>TargetRemote := None\<rparr>"

definition no_target :: RepoSync where
  "no_target = \<lparr>Repos = [(''foo'', foo_no_target)], BranchMapping = [''master'' \<mapsto> ''main'']\<rparr>"

section \<open>More vocabulary for the claims\<close>

text \<open>
  The local branch the lookup of lines 101-113 ends with: the last one of the listing that
  bears the given name.
\<close>

definition lastNamed :: "string \<Rightarrow> Reference list \<Rightarrow> Reference option" where
  "lastNamed n bs = find (\<lambda>l. ref_Name l = n) (rev bs)"

text \<open>
  The stage of the work on one repository a call belongs to. Log lines belong to none.
\<close>

datatype stage = Setup | Fetching | Branching | Tagging

fun stage_of :: "event \<Rightarrow> stage option" where
  "stage_of (ELog l) = None"
| "stage_of (EPlainOpen p e) = Some Setup"
| "stage_of (ERemotes p r) = Some Setup"
| "stage_of (ERemote p n e) = Some Setup"
| "stage_of (ECreateRemote p c e) = Some Setup"
| "stage_of (EFetch p c e) = Some Fetching"
| "stage_of (EList p c r) = Some Fetching"
| "stage_of (EWorktree p e) = Some Branching"
| "stage_of (EBranches p r) = Some Branching"
| "stage_of (ECheckout p opts e) = Some Branching"
| "stage_of (EHead p r) = Some Branching"
| "stage_of (EPull p opts e) = Some Branching"
| "stage_of (EReset p opts e) = Some Branching"
| "stage_of (EPush p opts e) = Some (if ps_FollowTags opts then Tagging else Branching)"
| "stage_of (EStatus p e) = Some Branching"
| "stage_of (ETags p r) = Some Tagging"

text \<open>The library calls of a run, without the log lines.\<close>

definition calls :: "event list \<Rightarrow> event list" where
  "calls es = filter (\<lambda>e. stage_of e \<noteq> None) es"

text \<open>The remotes fetched and the push options used, in order.\<close>

fun fetched_of :: "event \<Rightarrow> RemoteConfig list" where
  "fetched_of (EFetch p c e) = [c]"
| "fetched_of _ = []"

definition fetched :: "event list \<Rightarrow> RemoteConfig list" where
  "fetched es = concat (map fetched_of es)"

text \<open>The remotes of the repository, as the \<open>Remotes\<close> call of a run returned them.\<close>

fun remotes_of :: "event \<Rightarrow> RemoteConfig list" where
  "remotes_of (ERemotes p (Inr cs)) = cs"
| "remotes_of _ = []"

definition repo_remotes :: "event list \<Rightarrow> RemoteConfig list" where
  "repo_remotes es = concat (map remotes_of es)"



text \<open>
  A run stops at its first fatal result: nothing follows it but the error log line.
\<close>

fun stops_at_fatal :: "event list \<Rightarrow> bool" where
  "stops_at_fatal [] = True"
| "stops_at_fatal (e # es) = (if fatal_event e then es = [ELog LError] else stops_at_fatal es)"

text \<open>
  How a block may end: returning, with no fatal result among its events; or halting, with a
  non-zero exit status if it exits, and nothing after a fatal result but the log line.
\<close>

definition ends_well :: "'a res \<Rightarrow> event list \<Rightarrow> bool" where
  "ends_well r es =
     (case r of
        Ret a \<Rightarrow> list_all (\<lambda>e. \<not> fatal_event e) es
      | Exit n \<Rightarrow> n \<noteq> 0 \<and> stops_at_fatal es
      | Panic \<Rightarrow> stops_at_fatal es)"

text \<open>
  Any error result at all, the lookup and the creation of the target remote included.
\<close>

fun error_event :: "event \<Rightarrow> bool" where
  "error_event (ERemote p n e) = (e \<noteq> None)"
| "error_event (ECreateRemote p c e) = (e \<noteq> None)"
| "error_event e = fatal_event e"

text \<open>
  A Git that answers like \<open>g\<close>, except that fetch, pull and push return \<open>nil\<close> where
  \<open>g\<close> returns \<open>NoErrAlreadyUpToDate\<close>; and the same replacement in a recorded call.
\<close>

definition as_ok :: "giterr option \<Rightarrow> giterr option" where
  "as_ok e = (if e = Some NoErrAlreadyUpToDate then None else e)"

definition up_to_date_ok :: "'w git \<Rightarrow> 'w git" where
  "up_to_date_ok g =
     g\<lparr>git_Fetch := (\<lambda>p c w. (as_ok (fst (git_Fetch g p c w)), snd (git_Fetch g p c w))),
       git_Pull := (\<lambda>p opts w. (as_ok (fst (git_Pull g p opts w)), snd (git_Pull g p opts w))),
       git_Push := (\<lambda>p opts w. (as_ok (fst (git_Push g p opts w)), snd (git_Push g p opts w)))\<rparr>"

fun ok_event :: "event \<Rightarrow> event" where
  "ok_event (EFetch p c e) = EFetch p c (as_ok e)"
| "ok_event (EPull p opts e) = EPull p opts (as_ok e)"
| "ok_event (EPush p opts e) = EPush p opts (as_ok e)"
| "ok_event e = e"

text \<open>
  Two programs agree when, from every world, they end alike, leave the same world behind and
  make the same calls, up to the replacement of \<open>NoErrAlreadyUpToDate\<close> by \<open>nil\<close> in the
  results recorded for the second.
\<close>

definition agree :: "('w, 'a) act \<Rightarrow> ('w, 'a) act \<Rightarrow> bool" where
  "agree m' m = (\<forall>w. outcome (m' w) = outcome (m w) \<and> final (m' w) = final (m w)
      \<and> calls (events (m' w)) = map ok_event (calls (events (m w))))"

text \<open>
  Every remote listing of a run comes before every fetch of it: no listing follows a fetch.
\<close>

fun is_fetch :: "event \<Rightarrow> bool" where
  "is_fetch (EFetch p c e) = True"
| "is_fetch _ = False"

fun is_list :: "event \<Rightarrow> bool" where
  "is_list (EList p c r) = True"
| "is_list _ = False"

fun listed_before_fetched :: "event list \<Rightarrow> bool" where
  "listed_before_fetched [] = True"
| "listed_before_fetched (e # es) =
     ((\<not> is_fetch e \<or> \<not> list_ex is_list es) \<and> listed_before_fetched es)"

text \<open>
  Every remote listing of a run comes right after the fetch of the same remote, and that
  fetch returned \<open>nil\<close> or \<open>NoErrAlreadyUpToDate\<close>. The first argument is the event
  before the list, if any.
\<close>

fun fetch_then_list :: "event option \<Rightarrow> event list \<Rightarrow> bool" where
  "fetch_then_list prev [] = True"
| "fetch_then_list prev (e # es) =
     ((case e of
         EList p c x \<Rightarrow> prev = Some (EFetch p c None)
                        \<or> prev = Some (EFetch p c (Some NoErrAlreadyUpToDate))
       | _ \<Rightarrow> True)
      \<and> fetch_then_list (Some e) es)"

text \<open>
  The events the work on one repository can leave behind: each call with the arguments the
  program gives it, whatever its result.
\<close>

inductive may_emit :: "RepoSync \<Rightarrow> Repo \<Rightarrow> event \<Rightarrow> bool" for repoSync rs where
  log: "may_emit repoSync rs (ELog l)"
| plainOpen: "may_emit repoSync rs (EPlainOpen (repo_Path rs) e)"
| remotes: "may_emit repoSync rs (ERemotes (repo_Path rs) x)"
| remote: "TargetRemote rs = Some target
    \<Longrightarrow> may_emit repoSync rs (ERemote (repo_Path rs) (remote_Name target) e)"
| createRemote: "TargetRemote rs = Some target
    \<Longrightarrow> may_emit repoSync rs
          (ECreateRemote (repo_Path rs)
             \<lparr>rc_Name = remote_Name target, rc_URLs = [remote_Url target]\<rparr> e)"
| fetch: "may_emit repoSync rs (EFetch (repo_Path rs) c e)"
| list: "SourceRemote rs = Some source \<Longrightarrow> rc_Name c = remote_Name source
    \<Longrightarrow> may_emit repoSync rs (EList (repo_Path rs) c x)"
| worktree: "may_emit repoSync rs (EWorktree (repo_Path rs) e)"
| branches: "may_emit repoSync rs (EBranches (repo_Path rs) x)"
| create: "IsBranch (ref_Name r)
    \<Longrightarrow> may_emit repoSync rs (ECheckout (repo_Path rs) (createOptions r) e)"
| switch: "IsBranch (ref_Name l)
    \<Longrightarrow> may_emit repoSync rs (ECheckout (repo_Path rs) (switchOptions l) e)"
| head: "may_emit repoSync rs (EHead (repo_Path rs) x)"
| pull: "SourceRemote rs = Some source \<Longrightarrow> IsBranch (ref_Name r)
    \<Longrightarrow> may_emit repoSync rs (EPull (repo_Path rs) (pullOptions source r) e)"
| reset: "may_emit repoSync rs (EReset (repo_Path rs) (resetOptions l) e)"
| push: "TargetRemote rs = Some target \<Longrightarrow> IsBranch (ref_Name r)
    \<Longrightarrow> ref_Name l = ref_Name r
    \<Longrightarrow> may_emit repoSync rs (EPush (repo_Path rs) (branchPushOptions repoSync target l r) e)"
| status: "may_emit repoSync rs (EStatus (repo_Path rs) e)"
| tags: "may_emit repoSync rs (ETags (repo_Path rs) x)"
| pushTag: "TargetRemote rs = Some target
    \<Longrightarrow> may_emit repoSync rs (EPush (repo_Path rs) (tagPushOptions target t) e)"

section \<open>Postconditions of runs\<close>

text \<open>\<open>post m w Q\<close>: the run of \<open>m\<close> from \<open>w\<close> ends with a result, events and a world that
  satisfy \<open>Q\<close>.\<close>

definition post :: "('w, 'a) act \<Rightarrow> 'w \<Rightarrow> ('a res \<Rightarrow> event list \<Rightarrow> 'w \<Rightarrow> bool) \<Rightarrow> bool" where
  "post m w Q = Q (outcome (m w)) (events (m w)) (final (m w))"

section \<open>Running the program symbolically\<close>

lemma outcome_bnd:
  "outcome (bnd m f w) =
     (case outcome (m w) of Ret a \<Rightarrow> outcome (f a (final (m w))) | Exit n \<Rightarrow> Exit n | Panic \<Rightarrow> Panic)"
  by (simp add: bnd_def outcome_def final_def split: prod.splits res.splits)

lemma events_bnd:
  "events (bnd m f w) =
     (case outcome (m w) of Ret a \<Rightarrow> events (m w) @ events (f a (final (m w)))
      | Exit n \<Rightarrow> events (m w) | Panic \<Rightarrow> events (m w))"
  by (simp add: bnd_def outcome_def final_def events_def split: prod.splits res.splits)

lemma final_bnd:
  "final (bnd m f w) =
     (case outcome (m w) of Ret a \<Rightarrow> final (f a (final (m w)))
      | Exit n \<Rightarrow> final (m w) | Panic \<Rightarrow> final (m w))"
  by (simp add: bnd_def outcome_def final_def events_def split: prod.splits res.splits)

lemma run_call:
  "outcome (call op ev w) = Ret (fst (op w))"
  "events (call op ev w) = [ev (fst (op w))]"
  "final (call op ev w) = snd (op w)"
  by (simp_all add: call_def outcome_def final_def events_def split: prod.splits)

lemma run_ret:
  "outcome (ret a w) = Ret a" "events (ret a w) = []" "final (ret a w) = w"
  by (simp_all add: ret_def outcome_def final_def events_def)

lemma run_osExit:
  "outcome (osExit n w) = Exit n" "events (osExit n w) = []" "final (osExit n w) = w"
  by (simp_all add: osExit_def outcome_def final_def events_def)

lemma run_panic:
  "outcome (panic w) = Panic" "events (panic w) = []" "final (panic w) = w"
  by (simp_all add: panic_def outcome_def final_def events_def)

lemma run_logInfo:
  "outcome (logInfo w) = Ret ()" "events (logInfo w) = [ELog LInfo]" "final (logInfo w) = w"
  by (simp_all add: logInfo_def outcome_def final_def events_def)

lemma run_logError:
  "outcome (logError w) = Ret ()" "events (logError w) = [ELog LError]" "final (logError w) = w"
  by (simp_all add: logError_def outcome_def final_def events_def)

lemma run_logInfos:
  "outcome (logInfos xs w) = Ret ()"
  "events (logInfos xs w) = map (\<lambda>_. ELog LInfo) xs"
  "final (logInfos xs w) = w"
  by (simp_all add: logInfos_def outcome_def final_def events_def)

lemma run_fatal:
  "outcome (fatal w) = Exit 1" "events (fatal w) = [ELog LError]" "final (fatal w) = w"
  by (simp_all add: fatal_def outcome_bnd events_bnd final_bnd run_logError run_osExit)

lemma run_deref:
  "outcome (deref p w) = (case p of None \<Rightarrow> Panic | Some v \<Rightarrow> Ret v)"
  "events (deref p w) = []"
  "final (deref p w) = w"
  by (simp_all add: deref_def run_panic run_ret split: option.splits)

lemmas run_simps =
  outcome_bnd events_bnd final_bnd run_call run_ret run_osExit run_panic run_logInfo
  run_logError run_logInfos run_fatal run_deref

section \<open>The lookup of the local branch\<close>

lemma find_app:
  "find P (xs @ ys) = (case find P xs of None \<Rightarrow> find P ys | Some x \<Rightarrow> Some x)"
  by (induction xs) auto

lemma found_lastNamed_gen:
  "foldl (\<lambda>f l. if ref_Name l = n then Some l else f) a bs
     = (case lastNamed n bs of None \<Rightarrow> a | Some l \<Rightarrow> Some l)"
  by (induction bs arbitrary: a) (auto simp: lastNamed_def find_app split: option.splits)

lemma found_lastNamed:
  "foldl (\<lambda>f l. if ref_Name l = n then Some l else f) None bs = lastNamed n bs"
  by (simp add: found_lastNamed_gen split: option.splits)

lemma lastNamed_None: "(lastNamed n bs = None) = (\<forall>l\<in>set bs. ref_Name l \<noteq> n)"
  by (auto simp: lastNamed_def find_None_iff)

lemma lastNamed_Some: "lastNamed n bs = Some l \<Longrightarrow> l \<in> set bs \<and> ref_Name l = n"
proof -
  assume "lastNamed n bs = Some l"
  then have f: "find (\<lambda>l. ref_Name l = n) (rev bs) = Some l" by (simp add: lastNamed_def)
  then obtain i where "i < length (rev bs)" "ref_Name (rev bs ! i) = n" "l = rev bs ! i"
    unfolding find_Some_iff by blast
  then have "l \<in> set (rev bs)" "ref_Name l = n" by (auto simp del: set_rev)
  then show ?thesis by simp
qed

lemma getLocal_outcome:
  "outcome (repoGetLocalBranchForRemote g p r w) =
     (case fst (git_Branches g p w) of
        Inl e \<Rightarrow> Panic
      | Inr bs1 \<Rightarrow>
          (case fst (git_Branches g p (snd (git_Branches g p w))) of
             Inl e \<Rightarrow> Panic
           | Inr bs2 \<Rightarrow> Ret (lastNamed (ref_Name r) bs2, None)))"
  by (simp add: repoGetLocalBranchForRemote_def run_simps found_lastNamed split: sum.splits)

lemma getLocal_events:
  "events (repoGetLocalBranchForRemote g p r w) =
     EBranches p (fst (git_Branches g p w)) #
     (case fst (git_Branches g p w) of
        Inl e \<Rightarrow> [ELog LError]
      | Inr bs1 \<Rightarrow>
          EBranches p (fst (git_Branches g p (snd (git_Branches g p w)))) #
          (case fst (git_Branches g p (snd (git_Branches g p w))) of
             Inl e \<Rightarrow> [ELog LError]
           | Inr bs2 \<Rightarrow> []))"
  by (simp add: repoGetLocalBranchForRemote_def run_simps split: sum.splits)

lemma getLocal_final:
  "final (repoGetLocalBranchForRemote g p r w) =
     (case fst (git_Branches g p w) of
        Inl e \<Rightarrow> snd (git_Branches g p w)
      | Inr bs1 \<Rightarrow> snd (git_Branches g p (snd (git_Branches g p w))))"
  by (simp add: repoGetLocalBranchForRemote_def run_simps split: sum.splits)



lemma createLocal_Ret:
  "outcome (main_createLocal g rs r w) = Ret l \<Longrightarrow> ref_Name l = ref_Name r \<and> ref_Hash l = ref_Hash r"
  by (simp add: main_createLocal_def run_simps split: if_splits sum.splits)

lemma switchLocal_Ret:
  "outcome (main_switchLocal g rs l w) = Ret l' \<Longrightarrow> l' = l"
  by (simp add: main_switchLocal_def run_simps split: if_splits sum.splits)

section \<open>Rules for postconditions\<close>

lemma post_ret: "Q (Ret a) [] w \<Longrightarrow> post (ret a) w Q"
  by (simp add: post_def run_simps)

lemma post_fatal: "Q (Exit 1) [ELog LError] w \<Longrightarrow> post fatal w Q"
  by (simp add: post_def run_simps)

lemma post_panic: "Q Panic [] w \<Longrightarrow> post panic w Q"
  by (simp add: post_def run_simps)

lemma post_logInfo: "Q (Ret ()) [ELog LInfo] w \<Longrightarrow> post logInfo w Q"
  by (simp add: post_def run_simps)

lemma post_logError: "Q (Ret ()) [ELog LError] w \<Longrightarrow> post logError w Q"
  by (simp add: post_def run_simps)

lemma post_call: "Q (Ret (fst (op w))) [ev (fst (op w))] (snd (op w)) \<Longrightarrow> post (call op ev) w Q"
  by (simp add: post_def run_simps)

lemma post_if: "(c \<Longrightarrow> post a w Q) \<Longrightarrow> (\<not> c \<Longrightarrow> post b w Q) \<Longrightarrow> post (if c then a else b) w Q"
  by simp

lemma post_case_sum:
  "(\<And>e. x = Inl e \<Longrightarrow> post (a e) w Q) \<Longrightarrow> (\<And>v. x = Inr v \<Longrightarrow> post (b v) w Q)
   \<Longrightarrow> post (case x of Inl e \<Rightarrow> a e | Inr v \<Rightarrow> b v) w Q"
  by (cases x) simp_all

lemma post_case_option:
  "(x = None \<Longrightarrow> post a w Q) \<Longrightarrow> (\<And>v. x = Some v \<Longrightarrow> post (b v) w Q)
   \<Longrightarrow> post (case x of None \<Rightarrow> a | Some v \<Rightarrow> b v) w Q"
  by (cases x) simp_all

lemma post_bnd:
  "post m w (\<lambda>r es w'. case r of
       Ret a \<Rightarrow> post (f a) w' (\<lambda>r' es' w''. Q r' (es @ es') w'')
     | Exit n \<Rightarrow> Q (Exit n) es w' | Panic \<Rightarrow> Q Panic es w')
   \<Longrightarrow> post (bnd m f) w Q"
  by (simp add: post_def run_simps split: res.splits)

lemma post_bnd_ret: "post (f a) w Q \<Longrightarrow> post (bnd (ret a) f) w Q"
  by (simp add: post_def run_simps)

lemma post_bnd_fatal: "Q (Exit 1) [ELog LError] w \<Longrightarrow> post (bnd fatal f) w Q"
  by (simp add: post_def run_simps)

lemma post_bnd_panic: "Q Panic [] w \<Longrightarrow> post (bnd panic f) w Q"
  by (simp add: post_def run_simps)

lemma post_bnd_logInfo:
  "post (f ()) w (\<lambda>r es w'. Q r (ELog LInfo # es) w') \<Longrightarrow> post (bnd logInfo f) w Q"
  by (simp add: post_def run_simps)

lemma post_bnd_logError:
  "post (f ()) w (\<lambda>r es w'. Q r (ELog LError # es) w') \<Longrightarrow> post (bnd logError f) w Q"
  by (simp add: post_def run_simps)

lemma post_bnd_logInfos:
  "post (f ()) w (\<lambda>r es w'. Q r (map (\<lambda>_. ELog LInfo) xs @ es) w') \<Longrightarrow> post (bnd (logInfos xs) f) w Q"
  by (simp add: post_def run_simps)

lemma post_bnd_call:
  "post (f (fst (op w))) (snd (op w)) (\<lambda>r es w'. Q r (ev (fst (op w)) # es) w')
   \<Longrightarrow> post (bnd (call op ev) f) w Q"
  by (simp add: post_def run_simps)

lemma post_bnd_deref:
  "(p = None \<Longrightarrow> Q Panic [] w) \<Longrightarrow> (\<And>v. p = Some v \<Longrightarrow> post (f v) w Q)
   \<Longrightarrow> post (bnd (deref p) f) w Q"
  by (cases p) (simp_all add: post_def run_simps)

lemma post_bnd_if:
  "(c \<Longrightarrow> post (bnd a f) w Q) \<Longrightarrow> (\<not> c \<Longrightarrow> post (bnd b f) w Q)
   \<Longrightarrow> post (bnd (if c then a else b) f) w Q"
  by simp

lemma post_bnd_case_sum:
  "(\<And>e. x = Inl e \<Longrightarrow> post (bnd (a e) f) w Q) \<Longrightarrow> (\<And>v. x = Inr v \<Longrightarrow> post (bnd (b v) f) w Q)
   \<Longrightarrow> post (bnd (case x of Inl e \<Rightarrow> a e | Inr v \<Rightarrow> b v) f) w Q"
  by (cases x) simp_all

lemma post_bnd_case_option:
  "(x = None \<Longrightarrow> post (bnd a f) w Q) \<Longrightarrow> (\<And>v. x = Some v \<Longrightarrow> post (bnd (b v) f) w Q)
   \<Longrightarrow> post (bnd (case x of None \<Rightarrow> a | Some v \<Rightarrow> b v) f) w Q"
  by (cases x) simp_all

lemma post_bnd_block:
  assumes "post m w P"
    and "\<And>a es w'. P (Ret a) es w' \<Longrightarrow> post (f a) w' (\<lambda>r es' w''. Q r (es @ es') w'')"
    and "\<And>n es w'. P (Exit n) es w' \<Longrightarrow> Q (Exit n) es w'"
    and "\<And>es w'. P Panic es w' \<Longrightarrow> Q Panic es w'"
  shows "post (bnd m f) w Q"
proof (cases "outcome (m w)")
  case (Ret a)
  with assms(1) have "P (Ret a) (events (m w)) (final (m w))" by (simp add: post_def)
  from assms(2)[OF this] Ret show ?thesis by (simp add: post_def run_simps)
next
  case (Exit n)
  with assms(1) have "P (Exit n) (events (m w)) (final (m w))" by (simp add: post_def)
  from assms(3)[OF this] Exit show ?thesis by (simp add: post_def run_simps)
next
  case Panic
  with assms(1) have "P Panic (events (m w)) (final (m w))" by (simp add: post_def)
  from assms(4)[OF this] Panic show ?thesis by (simp add: post_def run_simps)
qed

lemma post_weaken:
  "post m w P \<Longrightarrow> (\<And>r es w'. P r es w' \<Longrightarrow> Q r es w') \<Longrightarrow> post m w Q"
  by (simp add: post_def)

lemma post_bnd_assoc:
  "post (bnd m (\<lambda>x. bnd (f x) k)) w Q \<Longrightarrow> post (bnd (bnd m f) k) w Q"
  by (simp add: post_def run_simps split: res.splits)

lemma post_case_pair: "post (f a b) w Q \<Longrightarrow> post (case (a, b) of (x, y) \<Rightarrow> f x y) w Q"
  by simp

lemmas post_steps =
  post_case_pair post_bnd_assoc post_bnd_ret post_bnd_fatal post_bnd_panic post_bnd_logInfo post_bnd_logError post_bnd_logInfos
  post_bnd_call post_bnd_deref post_bnd_if post_bnd_case_sum post_bnd_case_option
  post_ret post_fatal post_panic post_logInfo post_logError post_call post_if post_case_sum
  post_case_option

text \<open>The lookup of the local branch, as one step.\<close>

lemma post_bnd_getLocal:
  assumes "\<And>e. fst (git_Branches g p w) = Inl e
      \<Longrightarrow> Q Panic [EBranches p (Inl e), ELog LError] (snd (git_Branches g p w))"
    and "\<And>bs1 e. fst (git_Branches g p w) = Inr bs1
      \<Longrightarrow> fst (git_Branches g p (snd (git_Branches g p w))) = Inl e
      \<Longrightarrow> Q Panic [EBranches p (Inr bs1), EBranches p (Inl e), ELog LError]
            (snd (git_Branches g p (snd (git_Branches g p w))))"
    and "\<And>bs1 bs2. fst (git_Branches g p w) = Inr bs1
      \<Longrightarrow> fst (git_Branches g p (snd (git_Branches g p w))) = Inr bs2
      \<Longrightarrow> post (f (lastNamed (ref_Name r) bs2, None)) (snd (git_Branches g p (snd (git_Branches g p w))))
            (\<lambda>r es w'. Q r (EBranches p (Inr bs1) # EBranches p (Inr bs2) # es) w')"
  shows "post (bnd (repoGetLocalBranchForRemote g p r) f) w Q"
proof (cases "fst (git_Branches g p w)")
  case (Inl e)
  with assms(1)[OF Inl] show ?thesis
    by (simp add: post_def outcome_bnd events_bnd final_bnd getLocal_outcome getLocal_events getLocal_final)
next
  case b1: (Inr bs1)
  show ?thesis
  proof (cases "fst (git_Branches g p (snd (git_Branches g p w)))")
    case (Inl e)
    with b1 assms(2)[OF b1 Inl] show ?thesis
      by (simp add: post_def outcome_bnd events_bnd final_bnd getLocal_outcome getLocal_events getLocal_final)
  next
    case (Inr bs2)
    with b1 assms(3)[OF b1 Inr] show ?thesis
      by (simp add: post_def outcome_bnd events_bnd final_bnd getLocal_outcome getLocal_events getLocal_final)
  qed
qed


section \<open>What each block of main can emit\<close>

lemmas all_simps = post_def list.pred_map comp_def list.pred_True

lemma addTarget_events_all:
  assumes "\<phi> (ELog LInfo)"
    and "\<And>target e. TargetRemote rs = Some target \<Longrightarrow> \<phi> (ERemote (repo_Path rs) (remote_Name target) e)"
    and "\<And>target e. TargetRemote rs = Some target \<Longrightarrow>
          \<phi> (ECreateRemote (repo_Path rs) \<lparr>rc_Name = remote_Name target, rc_URLs = [remote_Url target]\<rparr> e)"
  shows "list_all \<phi> (events (main_addTargetRemote g rs w))"
proof -
  have "post (main_addTargetRemote g rs) w (\<lambda>r es w'. list_all \<phi> es)"
    unfolding main_addTargetRemote_def
    by (intro post_steps) (simp_all add: all_simps assms)
  then show ?thesis by (simp add: post_def)
qed

lemma fetchAll_events_all:
  assumes "\<phi> (ELog LInfo)" "\<phi> (ELog LError)"
    and "\<And>c e. c \<in> set remotes \<Longrightarrow> \<phi> (EFetch (repo_Path rs) c e)"
    and "\<And>c x source. c \<in> set remotes \<Longrightarrow> SourceRemote rs = Some source
           \<Longrightarrow> rc_Name c = remote_Name source \<Longrightarrow> \<phi> (EList (repo_Path rs) c x)"
  shows "list_all \<phi> (events (main_fetchAll g rs remotes acc w))"
  using assms(3,4)
proof (induction remotes arbitrary: acc w)
  case Nil
  show ?case by (simp add: run_simps)
next
  case (Cons remote remotes)
  have IH: "\<And>acc w. list_all \<phi> (events (main_fetchAll g rs remotes acc w))"
    using Cons by simp
  have "post (main_fetchAll g rs (remote # remotes) acc) w (\<lambda>r es w'. list_all \<phi> es)"
    unfolding main_fetchAll.simps
    by (intro post_steps) (simp_all add: all_simps IH assms(1,2) Cons.prems)
  then show ?case by (simp add: post_def)
qed

lemma syncBranch_events_all:
  assumes "\<phi> (ELog LInfo)" "\<phi> (ELog LError)"
    and "\<And>e. \<phi> (EWorktree (repo_Path rs) e)"
    and "\<And>x. \<phi> (EBranches (repo_Path rs) x)"
    and "\<And>e. \<phi> (ECheckout (repo_Path rs) (createOptions r) e)"
    and "\<And>l e. ref_Name l = ref_Name r \<Longrightarrow> \<phi> (ECheckout (repo_Path rs) (switchOptions l) e)"
    and "\<And>x. \<phi> (EHead (repo_Path rs) x)"
    and "\<And>source e. SourceRemote rs = Some source \<Longrightarrow> \<phi> (EPull (repo_Path rs) (pullOptions source r) e)"
    and "\<And>l e. ref_Name l = ref_Name r \<Longrightarrow> \<phi> (EReset (repo_Path rs) (resetOptions l) e)"
    and "\<And>target l e. TargetRemote rs = Some target \<Longrightarrow> ref_Name l = ref_Name r
           \<Longrightarrow> \<phi> (EPush (repo_Path rs) (branchPushOptions repoSync target l r) e)"
    and "\<And>e. \<phi> (EStatus (repo_Path rs) e)"
  shows "list_all \<phi> (events (main_syncBranch g repoSync rs r w))"
proof -
  have "post (main_syncBranch g repoSync rs r) w (\<lambda>r es w'. list_all \<phi> es)"
    unfolding main_syncBranch_def main_createLocal_def main_switchLocal_def main_pullResetPush_def
    by (intro post_steps post_bnd_getLocal) (auto simp: all_simps assms dest!: lastNamed_Some)
  then show ?thesis by (simp add: post_def)
qed

lemma syncBranches_events_all:
  assumes "\<And>r w. r \<in> set bts \<Longrightarrow> list_all \<phi> (events (main_syncBranch g repoSync rs r w))"
  shows "list_all \<phi> (events (main_syncBranches g repoSync rs bts w))"
  using assms
  by (induction bts arbitrary: w) (simp_all add: run_simps split: res.splits)

lemma pushTagRefs_events_all:
  assumes "\<phi> (ELog LInfo)" "\<phi> (ELog LError)"
    and "\<And>target t e. TargetRemote rs = Some target \<Longrightarrow> t \<in> set tags
           \<Longrightarrow> \<phi> (EPush (repo_Path rs) (tagPushOptions target t) e)"
  shows "list_all \<phi> (events (main_pushTagRefs g rs tags w))"
  using assms(3)
proof (induction tags arbitrary: w)
  case Nil
  show ?case by (simp add: run_simps)
next
  case (Cons t tags)
  have IH: "\<And>w. list_all \<phi> (events (main_pushTagRefs g rs tags w))"
    using Cons by simp
  have "post (main_pushTagRefs g rs (t # tags)) w (\<lambda>r es w'. list_all \<phi> es)"
    unfolding main_pushTagRefs.simps
    by (intro post_steps) (simp_all add: all_simps IH assms(1,2) Cons.prems)
  then show ?case by (simp add: post_def)
qed

lemma pushTags_events_all:
  assumes "\<phi> (ELog LInfo)" "\<phi> (ELog LError)"
    and "\<And>x. \<phi> (ETags (repo_Path rs) x)"
    and "\<And>target t e. TargetRemote rs = Some target
           \<Longrightarrow> \<phi> (EPush (repo_Path rs) (tagPushOptions target t) e)"
  shows "list_all \<phi> (events (main_pushTags g rs w))"
proof -
  have "post (main_pushTags g rs) w (\<lambda>r es w'. list_all \<phi> es)"
    unfolding main_pushTags_def
    by (intro post_steps) (simp_all add: all_simps assms pushTagRefs_events_all)
  then show ?thesis by (simp add: post_def)
qed


lemma fetchAll_branches:
  assumes "\<forall>r\<in>set acc. IsBranch (ref_Name r)"
    and "outcome (main_fetchAll g rs remotes acc w) = Ret bts"
  shows "\<forall>r\<in>set bts. IsBranch (ref_Name r)"
  using assms
proof (induction remotes arbitrary: acc w)
  case Nil
  then show ?case by (auto simp: run_simps)
next
  case (Cons remote remotes)
  have "post (main_fetchAll g rs (remote # remotes) acc) w
          (\<lambda>r es w'. r = Ret bts \<longrightarrow> (\<forall>r\<in>set bts. IsBranch (ref_Name r)))"
    unfolding main_fetchAll.simps
    by (intro post_steps) (auto simp: post_def Cons.prems(1) dest!: Cons.IH[rotated])
  with Cons.prems(2) show ?case by (simp add: post_def)
qed

lemma repo_emits:
  "list_all (may_emit repoSync rs) (events (main_repo g repoSync rs w))"
proof -
  have ft: "\<And>remotes w. post (main_fetchAll g rs remotes []) w
      (\<lambda>r es w'. list_all (may_emit repoSync rs) es
         \<and> (\<forall>bts. r = Ret bts \<longrightarrow> (\<forall>r\<in>set bts. IsBranch (ref_Name r))))"
    using fetchAll_branches[of "[]" g rs]
    by (auto simp: post_def fetchAll_events_all may_emit.intros)
  have at: "\<And>w. post (main_addTargetRemote g rs) w (\<lambda>r es w'. list_all (may_emit repoSync rs) es)"
    by (simp add: post_def addTarget_events_all may_emit.intros)
  have sb: "\<And>bts w. \<forall>r\<in>set bts. IsBranch (ref_Name r) \<Longrightarrow>
     list_all (may_emit repoSync rs) (events (main_syncBranches g repoSync rs bts w))"
    by (rule syncBranches_events_all, rule syncBranch_events_all)
       (auto intro: may_emit.intros)
  have pt: "\<And>w. list_all (may_emit repoSync rs) (events (main_pushTags g rs w))"
    by (rule pushTags_events_all) (auto intro: may_emit.intros)
  have "post (main_repo g repoSync rs) w (\<lambda>r es w'. list_all (may_emit repoSync rs) es)"
    unfolding main_repo_def
    apply (intro post_steps post_bnd_block[OF at] post_bnd_block[OF ft])
    apply (simp_all add: post_def run_simps may_emit.intros sb pt split: res.splits)
    done
  then show ?thesis by (simp add: post_def)
qed



section \<open>The shape of the runs that return\<close>

lemma actions_simps:
  "actions [] = []" "actions (e # es) = action_of e @ actions es"
  "actions (es @ es') = actions es @ actions es'"
  by (simp_all add: actions_def)

lemma listed_simps:
  "listed [] = []" "listed (e # es) = listed_of e @ listed es"
  "listed (es @ es') = listed es @ listed es'"
  by (simp_all add: listed_def)

lemma fetched_simps:
  "fetched [] = []" "fetched (e # es) = fetched_of e @ fetched es"
  "fetched (es @ es') = fetched es @ fetched es'"
  by (simp_all add: fetched_def)

lemma repo_Ret_shape:
  assumes "outcome (main_repo g repoSync rs w) = Ret ()"
  obtains remotes bts w1 w2 w3 w4 where
    "events (main_repo g repoSync rs w)
       = [ELog LInfo, EPlainOpen (repo_Path rs) None, ERemotes (repo_Path rs) (Inr remotes)]
         @ events (main_addTargetRemote g rs w1)
         @ events (main_fetchAll g rs remotes [] w2)
         @ [ELog LInfo]
         @ events (main_syncBranches g repoSync rs bts w3)
         @ events (main_pushTags g rs w4)"
    "outcome (main_addTargetRemote g rs w1) = Ret ()"
    "outcome (main_fetchAll g rs remotes [] w2) = Ret bts"
    "outcome (main_syncBranches g repoSync rs bts w3) = Ret ()"
    "outcome (main_pushTags g rs w4) = Ret ()"
  using assms unfolding main_repo_def
  by (auto simp: run_simps split: if_splits sum.splits res.splits intro: that)


lemma no_actions: "list_all (\<lambda>e. action_of e = []) es \<Longrightarrow> actions es = []"
  by (induction es) (simp_all add: actions_simps)

lemma no_listed: "list_all (\<lambda>e. listed_of e = []) es \<Longrightarrow> listed es = []"
  by (induction es) (simp_all add: listed_simps)

lemma no_fetched: "list_all (\<lambda>e. fetched_of e = []) es \<Longrightarrow> fetched es = []"
  by (induction es) (simp_all add: fetched_simps)

lemma addTarget_quiet:
  "actions (events (main_addTargetRemote g rs w)) = []"
  "listed (events (main_addTargetRemote g rs w)) = []"
  "fetched (events (main_addTargetRemote g rs w)) = []"
  by (rule no_actions no_listed no_fetched, rule addTarget_events_all, simp_all)+

lemma fetchAll_no_actions: "actions (events (main_fetchAll g rs remotes acc w)) = []"
  by (rule no_actions, rule fetchAll_events_all) simp_all

lemma syncBranches_no_listed: "listed (events (main_syncBranches g repoSync rs bts w)) = []"
  by (rule no_listed, rule syncBranches_events_all, rule syncBranch_events_all) simp_all

lemma pushTags_no_listed: "listed (events (main_pushTags g rs w)) = []"
  by (rule no_listed, rule pushTags_events_all) simp_all

lemma fetchAll_Ret:
  assumes "outcome (main_fetchAll g rs remotes acc w) = Ret bts"
  shows "bts = acc @ listed (events (main_fetchAll g rs remotes acc w))
       \<and> fetched (events (main_fetchAll g rs remotes acc w)) = remotes"
  using assms
proof (induction remotes arbitrary: acc w)
  case Nil
  then show ?case by (simp add: run_simps listed_simps fetched_simps)
next
  case (Cons remote remotes)
  have "post (main_fetchAll g rs (remote # remotes) acc) w
          (\<lambda>r es w'. r = Ret bts \<longrightarrow> bts = acc @ listed es \<and> fetched es = remote # remotes)"
    unfolding main_fetchAll.simps
    by (intro post_steps)
       (auto simp: post_def listed_simps fetched_simps no_listed no_fetched list.pred_map comp_def
          list.pred_True dest!: Cons.IH)
  with Cons.prems show ?case by (simp add: post_def)
qed





lemma calls_simps:
  "calls [] = []" "calls (e # es) = (if stage_of e \<noteq> None then [e] else []) @ calls es"
  "calls (es @ es') = calls es @ calls es'"
  by (simp_all add: calls_def)

lemma pushTagRefs_calls:
  assumes "outcome (main_pushTagRefs g rs tags w) = Ret ()"
  shows "list_all2 (\<lambda>t e. \<exists>target err. TargetRemote rs = Some target
            \<and> e = EPush (repo_Path rs) (tagPushOptions target t) err
            \<and> (err = None \<or> err = Some NoErrAlreadyUpToDate))
          tags (calls (events (main_pushTagRefs g rs tags w)))"
  using assms
proof (induction tags arbitrary: w)
  case Nil
  then show ?case by (simp add: run_simps calls_simps)
next
  case (Cons t tags)
  have "post (main_pushTagRefs g rs (t # tags)) w
          (\<lambda>r es w'. r = Ret () \<longrightarrow> list_all2 (\<lambda>t e. \<exists>target err. TargetRemote rs = Some target
            \<and> e = EPush (repo_Path rs) (tagPushOptions target t) err
            \<and> (err = None \<or> err = Some NoErrAlreadyUpToDate)) (t # tags) (calls es))"
    unfolding main_pushTagRefs.simps
    by (intro post_steps)
       (auto simp: post_def calls_simps dest!: Cons.IH)
  with Cons.prems show ?case by (simp add: post_def)
qed

lemma pushTags_calls:
  assumes "outcome (main_pushTags g rs w) = Ret ()"
  shows "\<exists>tags rest. events (main_pushTags g rs w) = ETags (repo_Path rs) (Inr tags) # rest
           \<and> list_all2 (\<lambda>t e. \<exists>target err. TargetRemote rs = Some target
            \<and> e = EPush (repo_Path rs) (tagPushOptions target t) err
            \<and> (err = None \<or> err = Some NoErrAlreadyUpToDate)) tags (calls rest)"
proof -
  have "post (main_pushTags g rs) w
          (\<lambda>r es w'. r = Ret () \<longrightarrow> (\<exists>tags rest. es = ETags (repo_Path rs) (Inr tags) # rest
           \<and> list_all2 (\<lambda>t e. \<exists>target err. TargetRemote rs = Some target
            \<and> e = EPush (repo_Path rs) (tagPushOptions target t) err
            \<and> (err = None \<or> err = Some NoErrAlreadyUpToDate)) tags (calls rest)))"
    unfolding main_pushTags_def
    by (intro post_steps) (auto simp: post_def dest!: pushTagRefs_calls)
  with assms show ?thesis by (simp add: post_def)
qed

lemma addTarget_not_tagging:
  "list_all (\<lambda>e. stage_of e \<noteq> Some Tagging) (events (main_addTargetRemote g rs w))"
  by (rule addTarget_events_all) simp_all

lemma fetchAll_not_tagging:
  "list_all (\<lambda>e. stage_of e \<noteq> Some Tagging) (events (main_fetchAll g rs remotes acc w))"
  by (rule fetchAll_events_all) simp_all

lemma syncBranches_not_tagging:
  "list_all (\<lambda>e. stage_of e \<noteq> Some Tagging) (events (main_syncBranches g repoSync rs bts w))"
  by (rule syncBranches_events_all, rule syncBranch_events_all)
     (simp_all add: branchPushOptions_def)

section \<open>Runs without a remote of the source remote's name\<close>

lemma repo_remotes_simps:
  "repo_remotes [] = []" "repo_remotes (e # es) = remotes_of e @ repo_remotes es"
  "repo_remotes (es @ es') = repo_remotes es @ repo_remotes es'"
  by (simp_all add: repo_remotes_def)

lemma no_repo_remotes: "list_all (\<lambda>e. remotes_of e = []) es \<Longrightarrow> repo_remotes es = []"
  by (induction es) (simp_all add: repo_remotes_simps)

lemma addTarget_Ret:
  "TargetRemote rs = Some target \<Longrightarrow> outcome (main_addTargetRemote g rs w) = Ret ()"
  by (simp add: main_addTargetRemote_def run_simps)

lemma addTarget_plain:
  "list_all (\<lambda>e. remotes_of e = [] \<and> stage_of e \<noteq> Some Branching \<and> \<not> is_list e \<and> \<not> fatal_event e)
     (events (main_addTargetRemote g rs w))"
  by (rule addTarget_events_all) simp_all

lemma fetchAll_no_remotes: "repo_remotes (events (main_fetchAll g rs remotes acc w)) = []"
  by (rule no_repo_remotes, rule fetchAll_events_all) simp_all

lemma syncBranches_no_remotes: "repo_remotes (events (main_syncBranches g repoSync rs bts w)) = []"
  by (rule no_repo_remotes, rule syncBranches_events_all, rule syncBranch_events_all) simp_all

lemma pushTags_plain:
  "list_all (\<lambda>e. remotes_of e = [] \<and> stage_of e \<noteq> Some Branching \<and> \<not> is_list e)
     (events (main_pushTags g rs w))"
  by (rule pushTags_events_all) (simp_all add: tagPushOptions_def)

lemma fetchAll_no_source:
  assumes "SourceRemote rs = Some source" "\<forall>c\<in>set remotes. rc_Name c \<noteq> remote_Name source"
  shows "list_all (\<lambda>e. stage_of e \<noteq> Some Branching \<and> \<not> is_list e) (events (main_fetchAll g rs remotes acc w))
       \<and> (\<forall>bts. outcome (main_fetchAll g rs remotes acc w) = Ret bts \<longrightarrow> bts = acc)
       \<and> (list_all (\<lambda>e. \<not> fatal_event e) (events (main_fetchAll g rs remotes acc w))
            \<longrightarrow> outcome (main_fetchAll g rs remotes acc w) = Ret acc)"
  using assms(2)
proof (induction remotes arbitrary: acc w)
  case Nil
  then show ?case by (simp add: run_simps)
next
  case (Cons remote remotes)
  from Cons.prems have ne: "rc_Name remote \<noteq> remote_Name source"
    and rest: "\<forall>c\<in>set remotes. rc_Name c \<noteq> remote_Name source" by simp_all
  note IH = Cons.IH[OF rest]
  have "post (main_fetchAll g rs (remote # remotes) acc) w
      (\<lambda>r es w'. list_all (\<lambda>e. stage_of e \<noteq> Some Branching \<and> \<not> is_list e) es
       \<and> (\<forall>bts. r = Ret bts \<longrightarrow> bts = acc)
       \<and> (list_all (\<lambda>e. \<not> fatal_event e) es \<longrightarrow> r = Ret acc))"
    unfolding main_fetchAll.simps
    by (intro post_steps) (use IH ne assms(1) in \<open>auto simp: post_def\<close>)
  then show ?case by (simp add: post_def)
qed

lemma pushTagRefs_unless_fatal:
  assumes "TargetRemote rs = Some target"
  shows "list_all (\<lambda>e. \<not> fatal_event e) (events (main_pushTagRefs g rs tags w))
           \<longrightarrow> outcome (main_pushTagRefs g rs tags w) = Ret ()"
proof (induction tags arbitrary: w)
  case Nil
  show ?case by (simp add: run_simps)
next
  case (Cons t tags)
  have "post (main_pushTagRefs g rs (t # tags)) w
      (\<lambda>r es w'. list_all (\<lambda>e. \<not> fatal_event e) es \<longrightarrow> r = Ret ())"
    unfolding main_pushTagRefs.simps
    by (intro post_steps) (use Cons.IH assms in \<open>auto simp: post_def\<close>)
  then show ?case by (simp add: post_def)
qed

lemma pushTags_unless_fatal:
  assumes "TargetRemote rs = Some target"
  shows "list_all (\<lambda>e. \<not> fatal_event e) (events (main_pushTags g rs w))
           \<longrightarrow> outcome (main_pushTags g rs w) = Ret ()"
proof -
  have "post (main_pushTags g rs) w
      (\<lambda>r es w'. list_all (\<lambda>e. \<not> fatal_event e) es \<longrightarrow> r = Ret ())"
    unfolding main_pushTags_def
    by (intro post_steps) (auto simp: post_def pushTagRefs_unless_fatal[OF assms, rule_format])
  then show ?thesis by (simp add: post_def)
qed

lemma repo_no_source:
  assumes "SourceRemote rs = Some source" "TargetRemote rs = Some target"
  shows "post (main_repo g repoSync rs) w (\<lambda>r es w'.
      (\<forall>c\<in>set (repo_remotes es). rc_Name c \<noteq> remote_Name source) \<longrightarrow>
         list_all (\<lambda>e. stage_of e \<noteq> Some Branching \<and> \<not> is_list e) es
       \<and> (list_all (\<lambda>e. \<not> fatal_event e) es \<longrightarrow> r = Ret ()))"
proof -
  have at: "\<And>w. post (main_addTargetRemote g rs) w (\<lambda>r es w'. r = Ret () \<and>
      list_all (\<lambda>e. remotes_of e = [] \<and> stage_of e \<noteq> Some Branching \<and> \<not> is_list e \<and> \<not> fatal_event e) es)"
    by (simp add: post_def addTarget_Ret[OF assms(2)] addTarget_plain)
  have ft: "\<And>remotes w. post (main_fetchAll g rs remotes []) w (\<lambda>r es w'.
       repo_remotes es = []
     \<and> ((\<forall>c\<in>set remotes. rc_Name c \<noteq> remote_Name source) \<longrightarrow>
         list_all (\<lambda>e. stage_of e \<noteq> Some Branching \<and> \<not> is_list e) es
       \<and> (\<forall>bts. r = Ret bts \<longrightarrow> bts = [])
       \<and> (list_all (\<lambda>e. \<not> fatal_event e) es \<longrightarrow> r = Ret [])))"
    by (simp add: post_def fetchAll_no_remotes fetchAll_no_source[OF assms(1)])
  have sb: "\<And>bts w. post (main_syncBranches g repoSync rs bts) w (\<lambda>r es w'.
       repo_remotes es = [] \<and> (bts = [] \<longrightarrow> r = Ret () \<and> es = []))"
    by (auto simp: post_def syncBranches_no_remotes run_simps)
  have pt: "\<And>w. post (main_pushTags g rs) w (\<lambda>r es w'.
       list_all (\<lambda>e. remotes_of e = [] \<and> stage_of e \<noteq> Some Branching \<and> \<not> is_list e) es
     \<and> (list_all (\<lambda>e. \<not> fatal_event e) es \<longrightarrow> r = Ret ()))"
    by (simp add: post_def pushTags_unless_fatal[OF assms(2), rule_format] pushTags_plain)
  show ?thesis
    unfolding main_repo_def
    apply (intro post_steps post_bnd_block[OF at] post_bnd_block[OF ft] post_bnd_block[OF sb] post_weaken[OF pt])
    apply (auto simp: repo_remotes_simps no_repo_remotes list_all_iff)
    done
qed


lemma syncBranches_no_fetched: "fetched (events (main_syncBranches g repoSync rs bts w)) = []"
  by (rule no_fetched, rule syncBranches_events_all, rule syncBranch_events_all) simp_all

lemma pushTags_no_fetched: "fetched (events (main_pushTags g rs w)) = []"
  by (rule no_fetched, rule pushTags_events_all) simp_all

lemma addTarget_no_remotes: "repo_remotes (events (main_addTargetRemote g rs w)) = []"
  by (rule no_repo_remotes, rule addTarget_events_all) simp_all

lemma pushTags_no_remotes: "repo_remotes (events (main_pushTags g rs w)) = []"
  by (rule no_repo_remotes, rule pushTags_events_all) simp_all

lemma listed_from:
  "r \<in> set (listed es) \<Longrightarrow>
     \<exists>p c refs. EList p c (Inr refs) \<in> set es \<and> r \<in> set refs \<and> IsBranch (ref_Name r)"
proof (induction es)
  case Nil
  then show ?case by (simp add: listed_simps)
next
  case (Cons e es)
  then show ?case
    by (cases e rule: listed_of.cases) (auto simp: listed_simps)
qed

lemma list_from_source:
  assumes "EList p c x \<in> set (events (main_repo g repoSync rs w))"
  shows "p = repo_Path rs \<and> (\<exists>source. SourceRemote rs = Some source \<and> rc_Name c = remote_Name source)"
proof -
  from repo_emits[of repoSync rs g w] assms have "may_emit repoSync rs (EList p c x)"
    by (simp add: list_all_iff)
  then show ?thesis by (auto elim: may_emit.cases)
qed

lemma actions_of_all:
  "list_all (\<lambda>e. \<forall>a\<in>set (action_of e). P a) es \<Longrightarrow> \<forall>a\<in>set (actions es). P a"
  by (induction es) (auto simp: actions_simps)

lemma syncBranch_actions:
  "list_all (\<lambda>e. \<forall>a\<in>set (action_of e).
        a \<in> {CreateLocal (ref_Name r) (ref_Hash r), UpdateLocal (ref_Name r),
              PushBranch [''+'' @ ref_Name r @ '':refs/heads/''
                            @ mapBranch repoSync (Short (ref_Name r))]})
     (events (main_syncBranch g repoSync rs r w))"
  by (rule syncBranch_events_all)
     (simp_all add: createOptions_def switchOptions_def branchPushOptions_def
        requiredRefSpecStr_def)

lemma syncBranches_actions:
  "list_all (\<lambda>e. \<forall>a\<in>set (action_of e). \<exists>r\<in>set bts.
        a \<in> {CreateLocal (ref_Name r) (ref_Hash r), UpdateLocal (ref_Name r),
              PushBranch [''+'' @ ref_Name r @ '':refs/heads/''
                            @ mapBranch repoSync (Short (ref_Name r))]})
     (events (main_syncBranches g repoSync rs bts w))"
proof (rule syncBranches_events_all)
  fix r w
  assume "r \<in> set bts"
  with syncBranch_actions[of r repoSync g rs w]
  show "list_all (\<lambda>e. \<forall>a\<in>set (action_of e). \<exists>r\<in>set bts.
        a \<in> {CreateLocal (ref_Name r) (ref_Hash r), UpdateLocal (ref_Name r),
              PushBranch [''+'' @ ref_Name r @ '':refs/heads/''
                            @ mapBranch repoSync (Short (ref_Name r))]})
     (events (main_syncBranch g repoSync rs r w))"
    by (auto simp: list_all_iff)
qed

lemma pushTags_actions:
  "list_all (\<lambda>e. \<forall>a\<in>set (action_of e). \<exists>specs. a = PushTag specs)
     (events (main_pushTags g rs w))"
  by (rule pushTags_events_all) (simp_all add: tagPushOptions_def)

lemma repo_actions_listed:
  "post (main_repo g repoSync rs) w (\<lambda>res es w'.
     \<forall>a\<in>set (actions es). (\<exists>specs. a = PushTag specs)
       \<or> (\<exists>r\<in>set (listed es).
            a \<in> {CreateLocal (ref_Name r) (ref_Hash r), UpdateLocal (ref_Name r),
                  PushBranch [''+'' @ ref_Name r @ '':refs/heads/''
                                @ mapBranch repoSync (Short (ref_Name r))]}))"
proof -
  have at: "\<And>w. post (main_addTargetRemote g rs) w (\<lambda>r es w'. actions es = [] \<and> listed es = [])"
    by (simp add: post_def addTarget_quiet)
  have ft: "\<And>remotes w. post (main_fetchAll g rs remotes []) w
      (\<lambda>r es w'. actions es = [] \<and> (\<forall>bts. r = Ret bts \<longrightarrow> bts = listed es))"
    using fetchAll_Ret[of g rs _ "[]"] by (simp add: post_def fetchAll_no_actions)
  have sb: "\<And>bts w. post (main_syncBranches g repoSync rs bts) w (\<lambda>res es w'.
      listed es = [] \<and> (\<forall>a\<in>set (actions es). \<exists>r\<in>set bts.
        a \<in> {CreateLocal (ref_Name r) (ref_Hash r), UpdateLocal (ref_Name r),
              PushBranch [''+'' @ ref_Name r @ '':refs/heads/''
                            @ mapBranch repoSync (Short (ref_Name r))]}))"
    using actions_of_all[OF syncBranches_actions] by (simp add: post_def syncBranches_no_listed)
  have pt: "\<And>w. post (main_pushTags g rs) w (\<lambda>res es w'.
      listed es = [] \<and> (\<forall>a\<in>set (actions es). \<exists>specs. a = PushTag specs))"
    using actions_of_all[OF pushTags_actions] by (simp add: post_def pushTags_no_listed)
  show ?thesis
    unfolding main_repo_def
    apply (intro post_steps post_bnd_block[OF at] post_bnd_block[OF ft] post_bnd_block[OF sb]
        post_weaken[OF pt])
    apply (auto simp: actions_simps listed_simps)
    done
qed

lemma fetchAll_fetched_prefix:
  "prefix (fetched (events (main_fetchAll g rs remotes acc w))) remotes"
proof (induction remotes arbitrary: acc w)
  case Nil
  show ?case by (simp add: run_simps fetched_simps)
next
  case (Cons remote remotes)
  have "post (main_fetchAll g rs (remote # remotes) acc) w
      (\<lambda>r es w'. prefix (fetched es) (remote # remotes))"
    unfolding main_fetchAll.simps
    by (intro post_steps)
       (auto simp: post_def fetched_simps Cons.IH no_fetched list.pred_map comp_def list.pred_True)
  then show ?case by (simp add: post_def)
qed

lemma repo_fetched_prefix:
  "post (main_repo g repoSync rs) w (\<lambda>r es w'. prefix (fetched es) (repo_remotes es))"
proof -
  have at: "\<And>w. post (main_addTargetRemote g rs) w (\<lambda>r es w'. fetched es = [] \<and> repo_remotes es = [])"
    by (simp add: post_def addTarget_quiet addTarget_no_remotes)
  have ft: "\<And>remotes w. post (main_fetchAll g rs remotes []) w
      (\<lambda>r es w'. repo_remotes es = [] \<and> prefix (fetched es) remotes)"
    by (simp add: post_def fetchAll_no_remotes fetchAll_fetched_prefix)
  have sb: "\<And>bts w. post (main_syncBranches g repoSync rs bts) w (\<lambda>res es w'.
      fetched es = [] \<and> repo_remotes es = [])"
    by (simp add: post_def syncBranches_no_fetched syncBranches_no_remotes)
  have pt: "\<And>w. post (main_pushTags g rs) w (\<lambda>res es w'.
      fetched es = [] \<and> repo_remotes es = [])"
    by (simp add: post_def pushTags_no_fetched pushTags_no_remotes)
  show ?thesis
    unfolding main_repo_def
    apply (intro post_steps post_bnd_block[OF at] post_bnd_block[OF ft] post_bnd_block[OF sb]
        post_weaken[OF pt])
    apply (auto simp: fetched_simps repo_remotes_simps)
    done
qed

lemma repo_starts:
  "post (main_repo g repoSync rs) w (\<lambda>r es w'.
      (\<forall>c e. ECreateRemote (repo_Path rs) c e \<notin> set es)
    \<or> (\<exists>remotes rest. es = ELog LInfo # EPlainOpen (repo_Path rs) None
            # ERemotes (repo_Path rs) (Inr remotes) # rest))"
  unfolding main_repo_def
  by (intro post_steps) (simp_all add: post_def)

lemma remotes_before_create:
  assumes "events (main_repo g repoSync rs w) = pre @ ECreateRemote (repo_Path rs) c e # rest"
  shows "\<exists>remotes. ERemotes (repo_Path rs) (Inr remotes) \<in> set pre"
proof -
  from assms have "ECreateRemote (repo_Path rs) c e \<in> set (events (main_repo g repoSync rs w))"
    by simp
  with repo_starts[of g repoSync rs w, unfolded post_def] obtain remotes rest' where
    "events (main_repo g repoSync rs w) = ELog LInfo # EPlainOpen (repo_Path rs) None
            # ERemotes (repo_Path rs) (Inr remotes) # rest'"
    by blast
  with assms have "pre @ ECreateRemote (repo_Path rs) c e # rest
      = ELog LInfo # EPlainOpen (repo_Path rs) None # ERemotes (repo_Path rs) (Inr remotes) # rest'"
    by simp
  then have "ERemotes (repo_Path rs) (Inr remotes) \<in> set pre"
    by (auto simp: append_eq_Cons_conv)
  then show ?thesis by blast
qed

section \<open>The order of fetching and listing\<close>

lemma ftl_quiet: "list_all (\<lambda>e. \<not> is_list e) es \<Longrightarrow> fetch_then_list prev es"
proof (induction es arbitrary: prev)
  case Nil
  show ?case by simp
next
  case (Cons e es)
  then show ?case by (cases e) simp_all
qed

lemma ftl_append:
  "fetch_then_list prev (es @ es')
     = (fetch_then_list prev es \<and> fetch_then_list (if es = [] then prev else Some (last es)) es')"
  by (induction es arbitrary: prev) simp_all

lemma ftl_append_any:
  "(\<And>prev. fetch_then_list prev es) \<Longrightarrow> (\<And>prev. fetch_then_list prev es')
     \<Longrightarrow> fetch_then_list prev (es @ es')"
  by (simp add: ftl_append)

lemma ftl_explicit:
  "fetch_then_list prev es \<Longrightarrow> es = pre @ EList p c x # rest \<Longrightarrow>
     (\<exists>e. (if pre = [] then prev else Some (last pre)) = Some (EFetch p c e)
          \<and> (e = None \<or> e = Some NoErrAlreadyUpToDate))"
  by (auto simp: ftl_append)

lemma fetchAll_ftl:
  "fetch_then_list prev (events (main_fetchAll g rs remotes acc w))"
proof (induction remotes arbitrary: prev acc w)
  case Nil
  show ?case by (simp add: run_simps)
next
  case (Cons remote remotes)
  have "post (main_fetchAll g rs (remote # remotes) acc) w (\<lambda>r es w'. fetch_then_list prev es)"
    unfolding main_fetchAll.simps
    by (intro post_steps)
       (auto simp: post_def ftl_append Cons.IH ftl_quiet list.pred_map comp_def list.pred_True)
  then show ?case by (simp add: post_def)
qed

lemma addTarget_ftl: "fetch_then_list prev (events (main_addTargetRemote g rs w))"
  by (rule ftl_quiet, rule addTarget_events_all) simp_all

lemma syncBranches_ftl: "fetch_then_list prev (events (main_syncBranches g repoSync rs bts w))"
  by (rule ftl_quiet, rule syncBranches_events_all, rule syncBranch_events_all) simp_all

lemma pushTags_ftl: "fetch_then_list prev (events (main_pushTags g rs w))"
  by (rule ftl_quiet, rule pushTags_events_all) simp_all

lemma repo_ftl: "fetch_then_list prev (events (main_repo g repoSync rs w))"
proof -
  have at: "\<And>w. post (main_addTargetRemote g rs) w (\<lambda>r es w'. \<forall>prev. fetch_then_list prev es)"
    by (simp add: post_def addTarget_ftl)
  have ft: "\<And>remotes w. post (main_fetchAll g rs remotes []) w (\<lambda>r es w'. \<forall>prev. fetch_then_list prev es)"
    by (simp add: post_def fetchAll_ftl)
  have sb: "\<And>bts w. post (main_syncBranches g repoSync rs bts) w (\<lambda>r es w'. \<forall>prev. fetch_then_list prev es)"
    by (simp add: post_def syncBranches_ftl)
  have "post (main_repo g repoSync rs) w (\<lambda>r es w'. fetch_then_list prev es)"
    unfolding main_repo_def
    apply (intro post_steps post_bnd_block[OF at] post_bnd_block[OF ft])
    apply (simp_all add: post_def run_simps ftl_append syncBranches_ftl pushTags_ftl split: res.splits)
    done
  then show ?thesis by (simp add: post_def)
qed

lemma repos_ftl: "fetch_then_list prev (events (main_repos g repoSync rss w))"
  by (induction rss arbitrary: prev w)
     (simp_all add: run_simps ftl_append repo_ftl split: res.splits)

section \<open>Every block stops at its first fatal result\<close>

lemma saf_quiet: "list_all (\<lambda>e. \<not> fatal_event e) es \<Longrightarrow> stops_at_fatal es"
  by (induction es) simp_all

lemma saf_append:
  "list_all (\<lambda>e. \<not> fatal_event e) es \<Longrightarrow> stops_at_fatal (es @ es') = stops_at_fatal es'"
  by (induction es) simp_all

lemma ends_well_simps:
  "ends_well (Ret a) es = list_all (\<lambda>e. \<not> fatal_event e) es"
  "ends_well (Exit n) es = (n \<noteq> 0 \<and> stops_at_fatal es)"
  "ends_well Panic es = stops_at_fatal es"
  by (simp_all add: ends_well_def)

lemma ends_well_append:
  "list_all (\<lambda>e. \<not> fatal_event e) es \<Longrightarrow> ends_well r (es @ es') = ends_well r es'"
  by (cases r) (simp_all add: ends_well_def saf_append)

lemma ends_well_Cons:
  "\<not> fatal_event e \<Longrightarrow> ends_well r (e # es) = ends_well r es"
  by (cases r) (simp_all add: ends_well_def)

lemma ends_well_result:
  "ends_well r es \<Longrightarrow> stops_at_fatal es \<and> (list_ex fatal_event es \<longrightarrow> exit_code r \<noteq> 0)"
  by (cases r) (auto simp: ends_well_def exit_code_def saf_quiet list_all_iff list_ex_iff)

lemmas ew_simps = post_def ends_well_simps ends_well_append ends_well_Cons saf_append saf_quiet
  list.pred_map comp_def list.pred_True

lemma addTarget_ends_well:
  "post (main_addTargetRemote g rs) w (\<lambda>r es w'. ends_well r es)"
  unfolding main_addTargetRemote_def
  by (intro post_steps) (simp_all add: ew_simps)

lemma fetchAll_ends_well:
  "post (main_fetchAll g rs remotes acc) w (\<lambda>r es w'. ends_well r es)"
proof (induction remotes arbitrary: acc w)
  case Nil
  show ?case by (simp add: post_def run_simps ends_well_simps)
next
  case (Cons remote remotes)
  note IH = Cons.IH[unfolded post_def]
  show ?case
    unfolding main_fetchAll.simps
    by (intro post_steps) (auto simp: ew_simps IH)
qed


lemma syncBranch_ends_well:
  "post (main_syncBranch g repoSync rs r) w (\<lambda>r es w'. ends_well r es)"
  unfolding main_syncBranch_def main_createLocal_def main_switchLocal_def main_pullResetPush_def
  by (intro post_steps post_bnd_getLocal) (auto simp: ew_simps)

lemma syncBranches_ends_well:
  "post (main_syncBranches g repoSync rs bts) w (\<lambda>r es w'. ends_well r es)"
proof (induction bts arbitrary: w)
  case Nil
  show ?case by (simp add: post_def run_simps ends_well_simps)
next
  case (Cons r bts)
  note IH = Cons.IH[unfolded post_def]
  show ?case
    unfolding main_syncBranches.simps
    by (intro post_bnd_block[OF syncBranch_ends_well]) (simp_all add: ew_simps IH)
qed

lemma pushTagRefs_ends_well:
  "post (main_pushTagRefs g rs tags) w (\<lambda>r es w'. ends_well r es)"
proof (induction tags arbitrary: w)
  case Nil
  show ?case by (simp add: post_def run_simps ends_well_simps)
next
  case (Cons t tags)
  note IH = Cons.IH[unfolded post_def]
  show ?case
    unfolding main_pushTagRefs.simps
    by (intro post_steps) (auto simp: ew_simps IH)
qed

lemma pushTags_ends_well:
  "post (main_pushTags g rs) w (\<lambda>r es w'. ends_well r es)"
  unfolding main_pushTags_def
  by (intro post_steps) (auto simp: ew_simps pushTagRefs_ends_well[unfolded post_def])

lemma repo_ends_well:
  "post (main_repo g repoSync rs) w (\<lambda>r es w'. ends_well r es)"
  unfolding main_repo_def
  by (intro post_steps post_bnd_block[OF addTarget_ends_well] post_bnd_block[OF fetchAll_ends_well]
        post_bnd_block[OF syncBranches_ends_well])
     (auto simp: ew_simps pushTags_ends_well[unfolded post_def])

lemma repos_ends_well:
  "post (main_repos g repoSync rss) w (\<lambda>r es w'. ends_well r es)"
proof (induction rss arbitrary: w)
  case Nil
  show ?case by (simp add: post_def run_simps ends_well_simps)
next
  case (Cons rs rss)
  note IH = Cons.IH[unfolded post_def]
  show ?case
    unfolding main_repos.simps
    by (intro post_bnd_block[OF repo_ends_well]) (simp_all add: ew_simps IH)
qed

section \<open>Up to date counts as success\<close>

lemma stage_ok_event: "stage_of (ok_event e) = stage_of e"
  by (cases e) simp_all

lemmas ag_simps = agree_def run_simps calls_simps stage_ok_event

lemma agree_bnd:
  assumes "agree m' m" and "\<And>a. agree (f' a) (f a)"
  shows "agree (bnd m' f') (bnd m f)"
  unfolding agree_def
proof
  fix w
  from assms(1) have a: "outcome (m' w) = outcome (m w)" "final (m' w) = final (m w)"
    "calls (events (m' w)) = map ok_event (calls (events (m w)))"
    by (simp_all add: agree_def)
  show "outcome (bnd m' f' w) = outcome (bnd m f w) \<and> final (bnd m' f' w) = final (bnd m f w)
      \<and> calls (events (bnd m' f' w)) = map ok_event (calls (events (bnd m f w)))"
  proof (cases "outcome (m w)")
    case (Ret x)
    from assms(2)[of x] have
      "outcome (f' x (final (m w))) = outcome (f x (final (m w)))"
      "final (f' x (final (m w))) = final (f x (final (m w)))"
      "calls (events (f' x (final (m w)))) = map ok_event (calls (events (f x (final (m w)))))"
      by (simp_all add: agree_def)
    with a Ret show ?thesis by (simp add: run_simps calls_simps)
  next
    case (Exit n)
    with a show ?thesis by (simp add: run_simps)
  next
    case Panic
    with a show ?thesis by (simp add: run_simps)
  qed
qed

lemma bnd_assoc: "bnd (bnd m f) k = bnd m (\<lambda>x. bnd (f x) k)"
  by (rule ext) (simp add: bnd_def split: prod.splits res.splits)

lemma agree_bnd_assoc:
  "agree (bnd m' (\<lambda>x. bnd (f' x) k')) (bnd m (\<lambda>x. bnd (f x) k))
     \<Longrightarrow> agree (bnd (bnd m' f') k') (bnd (bnd m f) k)"
  by (simp add: bnd_assoc)

lemma agree_ret: "agree (ret a) (ret a)"
  and agree_fatal: "agree fatal fatal"
  and agree_panic: "agree panic panic"
  and agree_logInfo: "agree logInfo logInfo"
  and agree_logError: "agree logError logError"
  and agree_logInfos: "agree (logInfos xs) (logInfos xs)"
  by (simp_all add: ag_simps calls_def)

lemma agree_deref: "agree (deref p) (deref p)"
  by (cases p) (simp_all add: ag_simps)

lemma agree_call: "(\<And>a. ok_event (ev a) = ev a) \<Longrightarrow> agree (call op ev) (call op ev)"
  by (simp add: ag_simps)

lemma agree_bnd_ret: "agree (f' a) (f a) \<Longrightarrow> agree (bnd (ret a) f') (bnd (ret a) f)"
  by (simp add: ag_simps)

lemma agree_bnd_fatal: "agree (bnd fatal f') (bnd fatal f)"
  and agree_bnd_panic: "agree (bnd panic f') (bnd panic f)"
  by (simp_all add: ag_simps)

lemma agree_bnd_logInfo: "agree (f' ()) (f ()) \<Longrightarrow> agree (bnd logInfo f') (bnd logInfo f)"
  and agree_bnd_logError: "agree (f' ()) (f ()) \<Longrightarrow> agree (bnd logError f') (bnd logError f)"
  and agree_bnd_logInfos: "agree (f' ()) (f ()) \<Longrightarrow> agree (bnd (logInfos xs) f') (bnd (logInfos xs) f)"
  by (simp_all add: ag_simps calls_def)

lemma agree_bnd_call:
  "(\<And>a. ok_event (ev a) = ev a) \<Longrightarrow> (\<And>a. agree (f' a) (f a))
     \<Longrightarrow> agree (bnd (call op ev) f') (bnd (call op ev) f)"
  by (simp add: ag_simps)

lemma agree_bnd_deref:
  "(\<And>v. agree (f' v) (f v)) \<Longrightarrow> agree (bnd (deref p) f') (bnd (deref p) f)"
  by (cases p) (simp_all add: ag_simps)

lemma agree_if:
  "(c \<Longrightarrow> agree a' a) \<Longrightarrow> (\<not> c \<Longrightarrow> agree b' b)
     \<Longrightarrow> agree (if c then a' else b') (if c then a else b)"
  by simp

lemma agree_case_sum:
  "(\<And>e. x = Inl e \<Longrightarrow> agree (a' e) (a e)) \<Longrightarrow> (\<And>v. x = Inr v \<Longrightarrow> agree (b' v) (b v))
   \<Longrightarrow> agree (case x of Inl e \<Rightarrow> a' e | Inr v \<Rightarrow> b' v) (case x of Inl e \<Rightarrow> a e | Inr v \<Rightarrow> b v)"
  by (cases x) simp_all

lemma agree_case_option:
  "(x = None \<Longrightarrow> agree a' a) \<Longrightarrow> (\<And>v. x = Some v \<Longrightarrow> agree (b' v) (b v))
   \<Longrightarrow> agree (case x of None \<Rightarrow> a' | Some v \<Rightarrow> b' v) (case x of None \<Rightarrow> a | Some v \<Rightarrow> b v)"
  by (cases x) simp_all

lemma agree_case_prod:
  "(\<And>x y. p = (x, y) \<Longrightarrow> agree (f' x y) (f x y))
   \<Longrightarrow> agree (case p of (x, y) \<Rightarrow> f' x y) (case p of (x, y) \<Rightarrow> f x y)"
  by (cases p) simp

lemma agree_bnd_if:
  "(c \<Longrightarrow> agree (bnd a' f') (bnd a f)) \<Longrightarrow> (\<not> c \<Longrightarrow> agree (bnd b' f') (bnd b f))
     \<Longrightarrow> agree (bnd (if c then a' else b') f') (bnd (if c then a else b) f)"
  by simp

lemma agree_bnd_case_sum:
  "(\<And>e. x = Inl e \<Longrightarrow> agree (bnd (a' e) f') (bnd (a e) f))
   \<Longrightarrow> (\<And>v. x = Inr v \<Longrightarrow> agree (bnd (b' v) f') (bnd (b v) f))
   \<Longrightarrow> agree (bnd (case x of Inl e \<Rightarrow> a' e | Inr v \<Rightarrow> b' v) f')
          (bnd (case x of Inl e \<Rightarrow> a e | Inr v \<Rightarrow> b v) f)"
  by (cases x) simp_all

lemma agree_bnd_case_option:
  "(x = None \<Longrightarrow> agree (bnd a' f') (bnd a f))
   \<Longrightarrow> (\<And>v. x = Some v \<Longrightarrow> agree (bnd (b' v) f') (bnd (b v) f))
   \<Longrightarrow> agree (bnd (case x of None \<Rightarrow> a' | Some v \<Rightarrow> b' v) f')
          (bnd (case x of None \<Rightarrow> a | Some v \<Rightarrow> b v) f)"
  by (cases x) simp_all

text \<open>The three calls that differ, and the checks of their results.\<close>

lemma utd_ops:
  "git_PlainOpen (up_to_date_ok g) = git_PlainOpen g"
  "git_Remotes (up_to_date_ok g) = git_Remotes g"
  "git_Remote (up_to_date_ok g) = git_Remote g"
  "git_CreateRemote (up_to_date_ok g) = git_CreateRemote g"
  "git_List (up_to_date_ok g) = git_List g"
  "git_Worktree (up_to_date_ok g) = git_Worktree g"
  "git_Branches (up_to_date_ok g) = git_Branches g"
  "git_Checkout (up_to_date_ok g) = git_Checkout g"
  "git_Head (up_to_date_ok g) = git_Head g"
  "git_Reset (up_to_date_ok g) = git_Reset g"
  "git_Status (up_to_date_ok g) = git_Status g"
  "git_Tags (up_to_date_ok g) = git_Tags g"
  by (simp_all add: up_to_date_ok_def)

lemma agree_bnd_Fetch:
  "(\<And>b. agree (f' (as_ok b)) (f b))
   \<Longrightarrow> agree (bnd (call (git_Fetch (up_to_date_ok g) p c) (EFetch p c)) f')
          (bnd (call (git_Fetch g p c) (EFetch p c)) f)"
  by (simp add: ag_simps up_to_date_ok_def)

lemma agree_bnd_Pull:
  "(\<And>b. agree (f' (as_ok b)) (f b))
   \<Longrightarrow> agree (bnd (call (git_Pull (up_to_date_ok g) p opts) (EPull p opts)) f')
          (bnd (call (git_Pull g p opts) (EPull p opts)) f)"
  by (simp add: ag_simps up_to_date_ok_def)

lemma agree_bnd_Push:
  "(\<And>b. agree (f' (as_ok b)) (f b))
   \<Longrightarrow> agree (bnd (call (git_Push (up_to_date_ok g) p opts) (EPush p opts)) f')
          (bnd (call (git_Push g p opts) (EPush p opts)) f)"
  by (simp add: ag_simps up_to_date_ok_def)

lemma agree_check:
  "agree x' x
   \<Longrightarrow> agree (if as_ok b \<noteq> None \<and> as_ok b \<noteq> Some NoErrAlreadyUpToDate then fatal else x')
          (if b \<noteq> None \<and> b \<noteq> Some NoErrAlreadyUpToDate then fatal else x)"
  by (auto simp: as_ok_def agree_fatal)

lemma agree_bnd_push_check:
  "agree (k' ()) (k ())
   \<Longrightarrow> agree (bnd (if as_ok b \<noteq> None
                   then (if as_ok b = Some NoErrAlreadyUpToDate then logInfo else fatal)
                   else ret ()) k')
          (bnd (if b \<noteq> None
                   then (if b = Some NoErrAlreadyUpToDate then logInfo else fatal)
                   else ret ()) k)"
  by (auto simp: as_ok_def ag_simps)

lemmas agree_steps =
  agree_bnd_assoc agree_bnd_ret agree_bnd_fatal agree_bnd_panic agree_bnd_logInfo
  agree_bnd_logError agree_bnd_logInfos agree_bnd_Fetch agree_bnd_Pull agree_bnd_Push
  agree_bnd_push_check agree_bnd_call agree_bnd_deref agree_bnd_if agree_bnd_case_sum
  agree_bnd_case_option agree_check
  agree_ret agree_fatal agree_panic agree_logInfo agree_logError agree_logInfos agree_deref
  agree_call agree_if agree_case_sum agree_case_option agree_case_prod

lemma addTarget_agree:
  "agree (main_addTargetRemote (up_to_date_ok g) rs) (main_addTargetRemote g rs)"
  unfolding main_addTargetRemote_def utd_ops
  by (intro agree_steps) simp_all

lemma fetchAll_agree:
  "agree (main_fetchAll (up_to_date_ok g) rs remotes acc) (main_fetchAll g rs remotes acc)"
proof (induction remotes arbitrary: acc)
  case Nil
  show ?case by (simp add: agree_ret)
next
  case (Cons remote remotes)
  show ?case
    unfolding main_fetchAll.simps utd_ops
    by (intro agree_steps Cons.IH) simp_all
qed

lemma getLocal_agree:
  "agree (repoGetLocalBranchForRemote (up_to_date_ok g) p r) (repoGetLocalBranchForRemote g p r)"
  unfolding repoGetLocalBranchForRemote_def utd_ops
  by (intro agree_steps) simp_all

lemma syncBranch_agree:
  "agree (main_syncBranch (up_to_date_ok g) repoSync rs r) (main_syncBranch g repoSync rs r)"
  unfolding main_syncBranch_def main_createLocal_def main_switchLocal_def main_pullResetPush_def
    utd_ops
  by (intro agree_steps agree_bnd[OF getLocal_agree]) simp_all

lemma syncBranches_agree:
  "agree (main_syncBranches (up_to_date_ok g) repoSync rs bts) (main_syncBranches g repoSync rs bts)"
  by (induction bts) (simp_all add: agree_ret agree_bnd syncBranch_agree)

lemma pushTagRefs_agree:
  "agree (main_pushTagRefs (up_to_date_ok g) rs tags) (main_pushTagRefs g rs tags)"
proof (induction tags)
  case Nil
  show ?case by (simp add: agree_ret)
next
  case (Cons t tags)
  show ?case
    unfolding main_pushTagRefs.simps utd_ops
    by (intro agree_steps Cons.IH)
qed

lemma pushTags_agree:
  "agree (main_pushTags (up_to_date_ok g) rs) (main_pushTags g rs)"
  unfolding main_pushTags_def utd_ops
  by (intro agree_steps pushTagRefs_agree) simp_all

lemma repo_agree:
  "agree (main_repo (up_to_date_ok g) repoSync rs) (main_repo g repoSync rs)"
  unfolding main_repo_def utd_ops
  by (intro agree_steps agree_bnd[OF addTarget_agree] agree_bnd[OF fetchAll_agree]
        agree_bnd[OF syncBranches_agree] pushTags_agree) simp_all

lemma repos_agree:
  "agree (main_repos (up_to_date_ok g) repoSync rss) (main_repos g repoSync rss)"
  by (induction rss) (simp_all add: agree_ret agree_bnd repo_agree)

section \<open>The run up to the tags, and the tag loop\<close>

lemma block_before_tags:
  assumes "post m w (\<lambda>r es w'. ends_well r es)"
    and "list_all (\<lambda>e. stage_of e \<noteq> Some Tagging) (events (m w))"
  shows "post m w (\<lambda>r es w'. list_all (\<lambda>e. stage_of e \<noteq> Some Tagging) es
      \<and> (\<forall>a. r = Ret a \<longrightarrow> list_all (\<lambda>e. \<not> fatal_event e) es))"
  using assms by (auto simp: post_def ends_well_simps)

lemma repo_upto_tags:
  "post (main_repo g repoSync rs) w (\<lambda>r es w'.
      (r \<noteq> Ret () \<and> list_all (\<lambda>e. stage_of e \<noteq> Some Tagging) es)
    \<or> (\<exists>pre w4. es = pre @ events (main_pushTags g rs w4)
          \<and> r = outcome (main_pushTags g rs w4)
          \<and> list_all (\<lambda>e. stage_of e \<noteq> Some Tagging \<and> \<not> fatal_event e) pre))"
proof -
  note at = block_before_tags[OF addTarget_ends_well addTarget_not_tagging]
  note ft = block_before_tags[OF fetchAll_ends_well fetchAll_not_tagging]
  note sb = block_before_tags[OF syncBranches_ends_well syncBranches_not_tagging]
  show ?thesis
    unfolding main_repo_def
    apply (intro post_steps post_bnd_block[OF at] post_bnd_block[OF ft] post_bnd_block[OF sb])
    apply (simp_all add: post_def)
    subgoal for remotes es esa esb w'b
      apply (rule disjI2)
      apply (rule exI[of _ "ELog LInfo # EPlainOpen (repo_Path rs) None
                # ERemotes (repo_Path rs) (Inr remotes) # es @ esa @ ELog LInfo # esb"])
      apply (rule exI[of _ w'b])
      apply (auto simp: list_all_iff)
      done
    done
qed


lemma pushTagRefs_run:
  "post (main_pushTagRefs g rs tags) w (\<lambda>r es w'.
      length (calls es) \<le> length tags
    \<and> list_all2 (\<lambda>t e. \<exists>target err. TargetRemote rs = Some target
            \<and> e = EPush (repo_Path rs) (tagPushOptions target t) err)
         (take (length (calls es)) tags) (calls es)
    \<and> list_all (\<lambda>e. stage_of e = None \<or> stage_of e = Some Tagging) es
    \<and> ((r = Ret ()) = (length (calls es) = length tags \<and> list_all (\<lambda>e. \<not> fatal_event e) es)))"
proof (induction tags arbitrary: w)
  case Nil
  show ?case by (simp add: post_def run_simps calls_simps)
next
  case (Cons t tags)
  show ?case
  proof (cases "TargetRemote rs")
    case None
    then show ?thesis by (simp add: post_def run_simps calls_simps)
  next
    case (Some target)
    have IH: "\<forall>w. length (calls (events (main_pushTagRefs g rs tags w))) \<le> length tags
      \<and> list_all2 (\<lambda>t e. \<exists>err. e = EPush (repo_Path rs) (tagPushOptions target t) err)
           (take (length (calls (events (main_pushTagRefs g rs tags w)))) tags)
           (calls (events (main_pushTagRefs g rs tags w)))
      \<and> list_all (\<lambda>e. stage_of e = None \<or> stage_of e = Some Tagging)
           (events (main_pushTagRefs g rs tags w))
      \<and> ((outcome (main_pushTagRefs g rs tags w) = Ret ())
          = (length (calls (events (main_pushTagRefs g rs tags w))) = length tags
             \<and> list_all (\<lambda>e. \<not> fatal_event e) (events (main_pushTagRefs g rs tags w))))"
      using Cons.IH Some by (simp add: post_def)
    have "post (main_pushTagRefs g rs (t # tags)) w (\<lambda>r es w'.
        length (calls es) \<le> length (t # tags)
      \<and> list_all2 (\<lambda>t e. \<exists>err. e = EPush (repo_Path rs) (tagPushOptions target t) err)
           (take (length (calls es)) (t # tags)) (calls es)
      \<and> list_all (\<lambda>e. stage_of e = None \<or> stage_of e = Some Tagging) es
      \<and> ((r = Ret ()) = (length (calls es) = length (t # tags)
            \<and> list_all (\<lambda>e. \<not> fatal_event e) es)))"
      unfolding main_pushTagRefs.simps
      by (intro post_steps) (simp_all add: post_def calls_simps Some IH tagPushOptions_def[of target t])
    then show ?thesis using Some by (simp add: post_def)
  qed
qed

lemma pushTags_run:
  "post (main_pushTags g rs) w (\<lambda>r es w'. \<exists>x fin.
      es = ETags (repo_Path rs) x # fin
    \<and> list_all (\<lambda>e. stage_of e = None \<or> stage_of e = Some Tagging) fin
    \<and> (case x of
          Inl err \<Rightarrow> fin = [ELog LError] \<and> r = Exit 1
        | Inr tags \<Rightarrow>
            length (calls fin) \<le> length tags
          \<and> list_all2 (\<lambda>t e. \<exists>target err. TargetRemote rs = Some target
                \<and> e = EPush (repo_Path rs) (tagPushOptions target t) err)
              (take (length (calls fin)) tags) (calls fin)
          \<and> ((r = Ret ()) = (length (calls fin) = length tags
                \<and> list_all (\<lambda>e. \<not> fatal_event e) fin))))"
proof (cases "fst (git_Tags g (repo_Path rs) w)")
  case (Inl e)
  then show ?thesis by (simp add: main_pushTags_def post_def run_simps)
next
  case (Inr tags)
  from pushTagRefs_run[of g rs tags "snd (git_Tags g (repo_Path rs) w)"] Inr show ?thesis
    by (simp add: main_pushTags_def post_def run_simps)
qed


lemma fatal_is_call: "fatal_event e \<Longrightarrow> stage_of e \<noteq> None"
  by (cases e) simp_all

lemma tags_after_Ret:
  assumes "outcome (main_repo g repoSync rs w) = Ret ()"
  shows "\<exists>pre tags fin.
      events (main_repo g repoSync rs w) = pre @ ETags (repo_Path rs) (Inr tags) # fin
    \<and> list_all (\<lambda>e. stage_of e \<noteq> Some Tagging) pre
    \<and> list_all2 (\<lambda>t e. \<exists>target err. TargetRemote rs = Some target
          \<and> e = EPush (repo_Path rs) (tagPushOptions target t) err
          \<and> (err = None \<or> err = Some NoErrAlreadyUpToDate))
        tags (calls fin)"
proof -
  from assms obtain remotes bts w1 w2 w3 w4 where
    ev: "events (main_repo g repoSync rs w)
       = [ELog LInfo, EPlainOpen (repo_Path rs) None, ERemotes (repo_Path rs) (Inr remotes)]
         @ events (main_addTargetRemote g rs w1)
         @ events (main_fetchAll g rs remotes [] w2)
         @ [ELog LInfo]
         @ events (main_syncBranches g repoSync rs bts w3)
         @ events (main_pushTags g rs w4)"
    and pt: "outcome (main_pushTags g rs w4) = Ret ()"
    by (rule repo_Ret_shape)
  let ?pre = "[ELog LInfo, EPlainOpen (repo_Path rs) None, ERemotes (repo_Path rs) (Inr remotes)]
         @ events (main_addTargetRemote g rs w1)
         @ events (main_fetchAll g rs remotes [] w2)
         @ [ELog LInfo]
         @ events (main_syncBranches g repoSync rs bts w3)"
  from pushTags_calls[OF pt] obtain tags rest where
    t: "events (main_pushTags g rs w4) = ETags (repo_Path rs) (Inr tags) # rest"
       "list_all2 (\<lambda>t e. \<exists>target err. TargetRemote rs = Some target
            \<and> e = EPush (repo_Path rs) (tagPushOptions target t) err
            \<and> (err = None \<or> err = Some NoErrAlreadyUpToDate)) tags (calls rest)"
    by blast
  have a: "events (main_repo g repoSync rs w) = ?pre @ ETags (repo_Path rs) (Inr tags) # rest"
    using ev t(1) by simp
  have b: "list_all (\<lambda>e. stage_of e \<noteq> Some Tagging) ?pre"
    by (simp add: addTarget_not_tagging fetchAll_not_tagging syncBranches_not_tagging)
  from a b t(2) show ?thesis by blast
qed

lemma repo_tags_run:
  "(outcome (main_repo g repoSync rs w) \<noteq> Ret ()
      \<and> list_all (\<lambda>e. stage_of e \<noteq> Some Tagging) (events (main_repo g repoSync rs w)))
   \<or> (\<exists>pre x fin.
        events (main_repo g repoSync rs w) = pre @ ETags (repo_Path rs) x # fin
      \<and> list_all (\<lambda>e. stage_of e \<noteq> Some Tagging \<and> \<not> fatal_event e) pre
      \<and> list_all (\<lambda>e. stage_of e = None \<or> stage_of e = Some Tagging) fin
      \<and> (case x of
            Inl err \<Rightarrow> fin = [ELog LError] \<and> outcome (main_repo g repoSync rs w) = Exit 1
          | Inr tags \<Rightarrow>
              length (calls fin) \<le> length tags
            \<and> list_all2 (\<lambda>t e. \<exists>target err. TargetRemote rs = Some target
                  \<and> e = EPush (repo_Path rs) (tagPushOptions target t) err)
                (take (length (calls fin)) tags) (calls fin)
            \<and> ((outcome (main_repo g repoSync rs w) = Ret ())
                = (length (calls fin) = length tags
                   \<and> list_all (\<lambda>e. \<not> fatal_event e) fin))))"
proof -
  from repo_upto_tags[of g repoSync rs w, unfolded post_def]
  consider (halted) "outcome (main_repo g repoSync rs w) \<noteq> Ret ()"
      "list_all (\<lambda>e. stage_of e \<noteq> Some Tagging) (events (main_repo g repoSync rs w))"
    | (tags) pre w4 where
      "events (main_repo g repoSync rs w) = pre @ events (main_pushTags g rs w4)"
      "outcome (main_repo g repoSync rs w) = outcome (main_pushTags g rs w4)"
      "list_all (\<lambda>e. stage_of e \<noteq> Some Tagging \<and> \<not> fatal_event e) pre"
    by blast
  then show ?thesis
  proof cases
    case halted
    then show ?thesis by blast
  next
    case tags
    from pushTags_run[of g rs w4, unfolded post_def] obtain x fin where
      p: "events (main_pushTags g rs w4) = ETags (repo_Path rs) x # fin"
        "list_all (\<lambda>e. stage_of e = None \<or> stage_of e = Some Tagging) fin"
        "case x of
            Inl err \<Rightarrow> fin = [ELog LError] \<and> outcome (main_pushTags g rs w4) = Exit 1
          | Inr tags \<Rightarrow>
              length (calls fin) \<le> length tags
            \<and> list_all2 (\<lambda>t e. \<exists>target err. TargetRemote rs = Some target
                  \<and> e = EPush (repo_Path rs) (tagPushOptions target t) err)
                (take (length (calls fin)) tags) (calls fin)
            \<and> ((outcome (main_pushTags g rs w4) = Ret ())
                = (length (calls fin) = length tags
                   \<and> list_all (\<lambda>e. \<not> fatal_event e) fin))"
      by blast
    from tags(1) p(1) have "events (main_repo g repoSync rs w) = pre @ ETags (repo_Path rs) x # fin"
      by simp
    with tags(3) p(2) p(3)[folded tags(2)] show ?thesis by blast
  qed
qed


lemma no_early_fatal:
  assumes "es = pre @ ETags p x # fin"
    and "list_all (\<lambda>e. stage_of e \<noteq> Some Tagging \<and> \<not> fatal_event e) pre"
    and "list_all (\<lambda>e. stage_of e = None \<or> stage_of e = Some Tagging) fin"
  shows "\<not> list_ex (\<lambda>e. fatal_event e \<and> stage_of e \<noteq> Some Tagging) es"
  using assms by (auto simp: list_all_iff list_ex_iff dest: fatal_is_call)

section \<open>Target-remote provisioning\<close>

text \<open>
  C10, as the program has it. The block of lines 139-147 halts the run in one case only:
  the repository entry has no target remote, and reading its name through the \<open>nil\<close>
  pointer panics before any call is made. With a target remote configured the block
  always returns: when the lookup of the target remote gives any error, the creation of
  the remote with the configured name and URL is attempted and its result, error or not,
  is dropped; when the lookup succeeds nothing more is called. Whatever follows the block
  in the program (\<open>f\<close>) is then always run.
\<close>

theorem addTargetRemote_halts_only_without_target:
  "(TargetRemote rs = None
      \<and> outcome (main_addTargetRemote g rs w) = Panic
      \<and> events (main_addTargetRemote g rs w) = []
      \<and> outcome (bnd (main_addTargetRemote g rs) f w) = Panic
      \<and> events (bnd (main_addTargetRemote g rs) f w) = [])
   \<or> (\<exists>target. TargetRemote rs = Some target
      \<and> outcome (main_addTargetRemote g rs w) = Ret ()
      \<and> ((\<exists>err. err = None
            \<and> events (main_addTargetRemote g rs w)
                = [ERemote (repo_Path rs) (remote_Name target) err])
         \<or> (\<exists>err cerr. err \<noteq> None
            \<and> events (main_addTargetRemote g rs w)
                = [ERemote (repo_Path rs) (remote_Name target) err, ELog LInfo,
                   ECreateRemote (repo_Path rs)
                     \<lparr>rc_Name = remote_Name target, rc_URLs = [remote_Url target]\<rparr> cerr]))
      \<and> outcome (bnd (main_addTargetRemote g rs) f w)
          = outcome (f () (final (main_addTargetRemote g rs w)))
      \<and> events (bnd (main_addTargetRemote g rs) f w)
          = events (main_addTargetRemote g rs w)
            @ events (f () (final (main_addTargetRemote g rs w))))"
proof (cases "TargetRemote rs")
  case None
  then have "outcome (main_addTargetRemote g rs w) = Panic"
    "events (main_addTargetRemote g rs w) = []"
    by (simp_all add: main_addTargetRemote_def run_simps)
  with None show ?thesis by (simp add: outcome_bnd events_bnd)
next
  case (Some target)
  have out: "outcome (main_addTargetRemote g rs w) = Ret ()"
    using Some by (simp add: main_addTargetRemote_def run_simps)
  have ev: "(\<exists>err. err = None
          \<and> events (main_addTargetRemote g rs w)
              = [ERemote (repo_Path rs) (remote_Name target) err])
       \<or> (\<exists>err cerr. err \<noteq> None
          \<and> events (main_addTargetRemote g rs w)
              = [ERemote (repo_Path rs) (remote_Name target) err, ELog LInfo,
                 ECreateRemote (repo_Path rs)
                   \<lparr>rc_Name = remote_Name target, rc_URLs = [remote_Url target]\<rparr> cerr])"
    using Some by (simp add: main_addTargetRemote_def run_simps)
  from Some out ev show ?thesis
    by (simp add: outcome_bnd events_bnd)
qed

text \<open>
  The README's repository on a Git that cannot create remotes: the lookup of \<open>github\<close>
  fails, the creation fails, the block returns all the same, and the failure shows only
  when the first push to \<open>github\<close> ends the run.
\<close>

theorem addTargetRemote_halts_only_without_target_witness:
  "TargetRemote foo = Some \<lparr>remote_Name = ''github'', remote_Url = ''git@github.com:bar/foo.git''\<rparr>
   \<and> outcome (main_addTargetRemote sim_no_create foo fresh_clone) = Ret ()
   \<and> events (main_addTargetRemote sim_no_create foo fresh_clone)
       = [ERemote ''local/repos/foo'' ''github'' (Some (GitError ''remote not found'')),
          ELog LInfo,
          ECreateRemote ''local/repos/foo''
            \<lparr>rc_Name = ''github'', rc_URLs = [''git@github.com:bar/foo.git'']\<rparr>
            (Some (GitError ''config is read-only''))]
   \<and> outcome (main sim_no_create readme fresh_clone) = Exit 1
   \<and> last (butlast (events (main sim_no_create readme fresh_clone)))
       = EPush ''local/repos/foo''
           \<lparr>ps_RemoteName = ''github'',
            ps_RefSpecs = [''+refs/heads/master:refs/heads/main''],
            ps_Force = True, ps_Atomic = True, ps_FollowTags = False\<rparr>
           (Some (GitError ''remote not found''))"
proof -
  have t: "TargetRemote foo
      = Some \<lparr>remote_Name = ''github'', remote_Url = ''git@github.com:bar/foo.git''\<rparr>"
    by (simp add: foo_def)
  have e: "events (main_addTargetRemote sim_no_create foo fresh_clone)
       = [ERemote ''local/repos/foo'' ''github'' (Some (GitError ''remote not found'')),
          ELog LInfo,
          ECreateRemote ''local/repos/foo''
            \<lparr>rc_Name = ''github'', rc_URLs = [''git@github.com:bar/foo.git'']\<rparr>
            (Some (GitError ''config is read-only''))]"
    by code_simp
  have m: "outcome (main sim_no_create readme fresh_clone) = Exit 1"
    by code_simp
  have l: "last (butlast (events (main sim_no_create readme fresh_clone)))
       = EPush ''local/repos/foo''
           \<lparr>ps_RemoteName = ''github'',
            ps_RefSpecs = [''+refs/heads/master:refs/heads/main''],
            ps_Force = True, ps_Atomic = True, ps_FollowTags = False\<rparr>
           (Some (GitError ''remote not found''))"
    by code_simp
  from addTargetRemote_halts_only_without_target
    [where rs = foo and g = sim_no_create and w = fresh_clone and f = "\<lambda>_. ret ()"] t
  have "outcome (main_addTargetRemote sim_no_create foo fresh_clone) = Ret ()"
    by simp
  with t e m l show ?thesis by simp
qed

text \<open>
  C10 as the specification words it, that for every input the run continues past
  provisioning, fails for a repository entry without a target remote: the run panics in
  the provisioning block, before any remote is fetched.
\<close>

theorem provisioning_panics_without_target:
  "TargetRemote foo_no_target = None
   \<and> outcome (main_addTargetRemote sim foo_no_target fresh_clone) = Panic
   \<and> outcome (main sim no_target fresh_clone) = Panic
   \<and> exit_code (outcome (main sim no_target fresh_clone)) = 2
   \<and> events (main sim no_target fresh_clone)
       = [ELog LInfo, EPlainOpen ''local/repos/foo'' None,
          ERemotes ''local/repos/foo'' (Inr [origin])]
   \<and> fetched (events (main sim no_target fresh_clone)) = []"
  by code_simp

section \<open>The branch mapping and the ref-spec of a branch push\<close>




section \<open>Matching a remote branch with a local branch\<close>

text \<open>
  C2. Take a run of the loop body for the remote branch \<open>r\<close> in which the worktree and
  both listings of the local branches were obtained. The checkout that follows is the
  update of an existing branch (no \<open>Create\<close>, no hash) exactly when the second listing,
  the one the lookup searches, holds a branch whose fully-qualified name equals \<open>r\<close>'s;
  otherwise it creates the branch at \<open>r\<close>'s commit. Only names are compared: neither the
  short name nor the commit of a local branch plays a part.
\<close>

theorem update_iff_local_name_equal:
  assumes "events (main_syncBranch g repoSync rs r w)
      = EWorktree p None # EBranches p (Inr bs1) # EBranches p (Inr bs2) # rest"
  shows "\<exists>e rest'. rest = ELog LInfo
      # ECheckout (repo_Path rs)
          (if \<exists>l\<in>set bs2. ref_Name l = ref_Name r
           then \<lparr>co_Hash = ZeroHash, co_Branch = ref_Name r,
                 co_Create = False, co_Force = True, co_Keep = False\<rparr>
           else \<lparr>co_Hash = ref_Hash r, co_Branch = ref_Name r,
                 co_Create = True, co_Force = True, co_Keep = False\<rparr>) e
      # rest'"
  using assms
  by (auto simp: main_syncBranch_def main_createLocal_def main_switchLocal_def
        getLocal_outcome getLocal_events getLocal_final createOptions_def switchOptions_def
        run_simps lastNamed_None
      dest!: lastNamed_Some split: if_splits sum.splits option.splits)

text \<open>
  Two local references with the remote branch's commit, one of them with its short name,
  do not match the remote \<open>refs/heads/master\<close>: the branch is created. A local
  \<open>refs/heads/master\<close> at another commit matches: the branch is updated.
\<close>

theorem update_iff_local_name_equal_witness:
  "take 3 (events (main_syncBranch sim readme foo (master ''abc123'') lookalikes))
     = [EWorktree ''local/repos/foo'' None,
        EBranches ''local/repos/foo''
          (Inr [\<lparr>ref_Name = ''refs/heads/main'', ref_Hash = ''abc123''\<rparr>,
                \<lparr>ref_Name = ''refs/tags/master'', ref_Hash = ''abc123''\<rparr>]),
        EBranches ''local/repos/foo''
          (Inr [\<lparr>ref_Name = ''refs/heads/main'', ref_Hash = ''abc123''\<rparr>,
                \<lparr>ref_Name = ''refs/tags/master'', ref_Hash = ''abc123''\<rparr>])]
   \<and> Short ''refs/tags/master'' = Short ''refs/heads/master''
   \<and> (\<exists>e rest'. drop 3 (events (main_syncBranch sim readme foo (master ''abc123'') lookalikes))
          = ELog LInfo
            # ECheckout ''local/repos/foo''
                \<lparr>co_Hash = ''abc123'', co_Branch = ''refs/heads/master'',
                 co_Create = True, co_Force = True, co_Keep = False\<rparr> e
            # rest')
   \<and> take 3 (events (main_syncBranch sim readme foo (master ''abc123'') behind))
     = [EWorktree ''local/repos/foo'' None,
        EBranches ''local/repos/foo'' (Inr [master ''0ld999'']),
        EBranches ''local/repos/foo'' (Inr [master ''0ld999''])]
   \<and> (\<exists>e rest'. drop 3 (events (main_syncBranch sim readme foo (master ''abc123'') behind))
          = ELog LInfo
            # ECheckout ''local/repos/foo''
                \<lparr>co_Hash = ZeroHash, co_Branch = ''refs/heads/master'',
                 co_Create = False, co_Force = True, co_Keep = False\<rparr> e
            # rest')"
proof -
  let ?a = "events (main_syncBranch sim readme foo (master ''abc123'') lookalikes)"
  let ?b = "events (main_syncBranch sim readme foo (master ''abc123'') behind)"
  let ?ls = "[\<lparr>ref_Name = ''refs/heads/main'', ref_Hash = ''abc123''\<rparr>,
              \<lparr>ref_Name = ''refs/tags/master'', ref_Hash = ''abc123''\<rparr>]"
  have a3: "take 3 ?a = [EWorktree ''local/repos/foo'' None,
        EBranches ''local/repos/foo'' (Inr ?ls), EBranches ''local/repos/foo'' (Inr ?ls)]"
    by code_simp
  have b3: "take 3 ?b = [EWorktree ''local/repos/foo'' None,
        EBranches ''local/repos/foo'' (Inr [master ''0ld999'']),
        EBranches ''local/repos/foo'' (Inr [master ''0ld999''])]"
    by code_simp
  have s: "Short ''refs/tags/master'' = Short ''refs/heads/master''"
    by code_simp
  have a: "?a = EWorktree ''local/repos/foo'' None # EBranches ''local/repos/foo'' (Inr ?ls)
       # EBranches ''local/repos/foo'' (Inr ?ls) # drop 3 ?a"
    using a3 append_take_drop_id[of 3 ?a] by simp
  have b: "?b = EWorktree ''local/repos/foo'' None
       # EBranches ''local/repos/foo'' (Inr [master ''0ld999''])
       # EBranches ''local/repos/foo'' (Inr [master ''0ld999'']) # drop 3 ?b"
    using b3 append_take_drop_id[of 3 ?b] by simp
  have ca: "\<exists>e rest'. drop 3 ?a = ELog LInfo
            # ECheckout ''local/repos/foo''
                \<lparr>co_Hash = ''abc123'', co_Branch = ''refs/heads/master'',
                 co_Create = True, co_Force = True, co_Keep = False\<rparr> e
            # rest'"
    using update_iff_local_name_equal[OF a] by (simp add: master_def foo_def)
  have cb: "\<exists>e rest'. drop 3 ?b = ELog LInfo
            # ECheckout ''local/repos/foo''
                \<lparr>co_Hash = ZeroHash, co_Branch = ''refs/heads/master'',
                 co_Create = False, co_Force = True, co_Keep = False\<rparr> e
            # rest'"
    using update_iff_local_name_equal[OF b] by (simp add: master_def foo_def)
  from a3 b3 s ca cb show ?thesis by blast
qed


section \<open>The check after creating a local branch\<close>

text \<open>
  C8. Take a run of the loop body in which the worktree and both listings were obtained,
  the checkout succeeded and \<open>HEAD\<close> was read (only the create path reads it, so the
  checkout is the creating one). If the hash of \<open>HEAD\<close> differs from the remote branch's
  hash, or its name from the remote branch's name, nothing follows but the error log line
  and the process exits with status 1. Otherwise the pull of the branch from the source
  remote follows, then (when the pull returns no error other than already-up-to-date) the
  hard reset, then (when the reset returns no error) the push of that branch.
\<close>

theorem created_branch_is_checked:
  assumes "events (main_syncBranch g repoSync rs r w)
      = EWorktree p None # EBranches p (Inr bs1) # EBranches p (Inr bs2)
          # ELog LInfo # ECheckout p opts None # EHead p (Inr h) # rest"
    and "SourceRemote rs = Some source" and "TargetRemote rs = Some target"
  shows "opts = createOptions r
    \<and> (if ref_Hash h \<noteq> ref_Hash r \<or> ref_Name h \<noteq> ref_Name r
       then rest = [ELog LError] \<and> outcome (main_syncBranch g repoSync rs r w) = Exit 1
       else \<exists>e1 rest1. rest = ELog LInfo # EPull p (pullOptions source r) e1 # rest1
          \<and> (e1 = None \<or> e1 = Some NoErrAlreadyUpToDate \<longrightarrow>
               (\<exists>e2 rest2. rest1 = ELog LInfo # EReset p (resetOptions h) e2 # rest2
                  \<and> (e2 = None \<longrightarrow>
                       (\<exists>e3 rest3. rest2 = ELog LInfo
                            # EPush p (branchPushOptions repoSync target h r) e3 # rest3)))))"
proof -
  have "post (main_syncBranch g repoSync rs r) w (\<lambda>res es w'.
     \<forall>p bs1 bs2 opts h rest. es = EWorktree p None # EBranches p (Inr bs1) # EBranches p (Inr bs2)
          # ELog LInfo # ECheckout p opts None # EHead p (Inr h) # rest \<longrightarrow>
     opts = createOptions r
    \<and> (if ref_Hash h \<noteq> ref_Hash r \<or> ref_Name h \<noteq> ref_Name r
       then rest = [ELog LError] \<and> res = Exit 1
       else \<exists>e1 rest1. rest = ELog LInfo # EPull p (pullOptions source r) e1 # rest1
          \<and> (e1 = None \<or> e1 = Some NoErrAlreadyUpToDate \<longrightarrow>
               (\<exists>e2 rest2. rest1 = ELog LInfo # EReset p (resetOptions h) e2 # rest2
                  \<and> (e2 = None \<longrightarrow>
                       (\<exists>e3 rest3. rest2 = ELog LInfo
                            # EPush p (branchPushOptions repoSync target h r) e3 # rest3))))))"
    unfolding main_syncBranch_def main_createLocal_def main_switchLocal_def main_pullResetPush_def
    by (intro post_steps post_bnd_getLocal) (use assms(2,3) in \<open>auto simp: post_def\<close>)
  then have "\<forall>p bs1 bs2 opts h rest. events (main_syncBranch g repoSync rs r w)
        = EWorktree p None # EBranches p (Inr bs1) # EBranches p (Inr bs2)
          # ELog LInfo # ECheckout p opts None # EHead p (Inr h) # rest \<longrightarrow>
     opts = createOptions r
    \<and> (if ref_Hash h \<noteq> ref_Hash r \<or> ref_Name h \<noteq> ref_Name r
       then rest = [ELog LError] \<and> outcome (main_syncBranch g repoSync rs r w) = Exit 1
       else \<exists>e1 rest1. rest = ELog LInfo # EPull p (pullOptions source r) e1 # rest1
          \<and> (e1 = None \<or> e1 = Some NoErrAlreadyUpToDate \<longrightarrow>
               (\<exists>e2 rest2. rest1 = ELog LInfo # EReset p (resetOptions h) e2 # rest2
                  \<and> (e2 = None \<longrightarrow>
                       (\<exists>e3 rest3. rest2 = ELog LInfo
                            # EPush p (branchPushOptions repoSync target h r) e3 # rest3)))))"
    unfolding post_def .
  from this[rule_format, OF assms(1)] show ?thesis .
qed


text \<open>
  A Git that reports a detached \<open>HEAD\<close> after the checkout: the commit is the remote
  branch's, the name is not, and the run ends there with status 1.
\<close>

theorem created_branch_is_checked_witness:
  "events (main_syncBranch sim_detached readme foo (master ''abc123'') mirror_ready)
     = [EWorktree ''local/repos/foo'' None,
        EBranches ''local/repos/foo'' (Inr []),
        EBranches ''local/repos/foo'' (Inr []),
        ELog LInfo,
        ECheckout ''local/repos/foo''
          \<lparr>co_Hash = ''abc123'', co_Branch = ''refs/heads/master'',
           co_Create = True, co_Force = True, co_Keep = False\<rparr> None,
        EHead ''local/repos/foo'' (Inr \<lparr>ref_Name = ''HEAD'', ref_Hash = ''abc123''\<rparr>),
        ELog LError]
   \<and> SourceRemote foo = Some \<lparr>remote_Name = ''origin'', remote_Url = []\<rparr>
   \<and> TargetRemote foo
       = Some \<lparr>remote_Name = ''github'', remote_Url = ''git@github.com:bar/foo.git''\<rparr>
   \<and> outcome (main_syncBranch sim_detached readme foo (master ''abc123'') mirror_ready) = Exit 1"
proof -
  have e: "events (main_syncBranch sim_detached readme foo (master ''abc123'') mirror_ready)
     = EWorktree ''local/repos/foo'' None
       # EBranches ''local/repos/foo'' (Inr [])
       # EBranches ''local/repos/foo'' (Inr [])
       # ELog LInfo
       # ECheckout ''local/repos/foo''
          \<lparr>co_Hash = ''abc123'', co_Branch = ''refs/heads/master'',
           co_Create = True, co_Force = True, co_Keep = False\<rparr> None
       # EHead ''local/repos/foo'' (Inr \<lparr>ref_Name = ''HEAD'', ref_Hash = ''abc123''\<rparr>)
       # [ELog LError]"
    by code_simp
  have s: "SourceRemote foo = Some \<lparr>remote_Name = ''origin'', remote_Url = []\<rparr>"
    by (simp add: foo_def)
  have t: "TargetRemote foo
       = Some \<lparr>remote_Name = ''github'', remote_Url = ''git@github.com:bar/foo.git''\<rparr>"
    by (simp add: foo_def)
  from created_branch_is_checked[OF e s t]
  have "outcome (main_syncBranch sim_detached readme foo (master ''abc123'') mirror_ready) = Exit 1"
    by (simp add: master_def)
  with e s t show ?thesis by simp
qed


section \<open>The update of an existing local branch\<close>

text \<open>
  The update path for every Git: after the forced checkout of the local branch \<open>l\<close> the
  lookup returned comes the single-branch forced pull of the remote branch's reference
  from the source remote, then the hard reset, whose commit is the hash \<open>l\<close> held in the
  listing, before the pull.
\<close>

lemma update_path_calls:
  assumes "events (main_syncBranch g repoSync rs r w)
      = EWorktree p None # EBranches p (Inr bs1) # EBranches p (Inr bs2) # rest"
    and "lastNamed (ref_Name r) bs2 = Some l"
    and "SourceRemote rs = Some source"
  shows "\<exists>e1 rest1. rest = ELog LInfo
        # ECheckout p \<lparr>co_Hash = ZeroHash, co_Branch = ref_Name l,
                        co_Create = False, co_Force = True, co_Keep = False\<rparr> e1 # rest1
      \<and> (e1 = None \<longrightarrow>
           (\<exists>e2 rest2. rest1 = ELog LInfo
               # EPull p \<lparr>pl_RemoteName = remote_Name source, pl_ReferenceName = ref_Name r,
                           pl_SingleBranch = True, pl_Force = True\<rparr> e2 # rest2
             \<and> (e2 = None \<or> e2 = Some NoErrAlreadyUpToDate \<longrightarrow>
                  (\<exists>e3 rest3. rest2 = ELog LInfo
                      # EReset p \<lparr>rs_Commit = ref_Hash l, rs_Mode = HardReset\<rparr> e3 # rest3))))"
proof -
  have "post (main_syncBranch g repoSync rs r) w (\<lambda>res es w'.
     \<forall>p bs1 bs2 rest. es = EWorktree p None # EBranches p (Inr bs1) # EBranches p (Inr bs2) # rest
       \<longrightarrow> lastNamed (ref_Name r) bs2 = Some l \<longrightarrow>
     (\<exists>e1 rest1. rest = ELog LInfo
        # ECheckout p \<lparr>co_Hash = ZeroHash, co_Branch = ref_Name l,
                        co_Create = False, co_Force = True, co_Keep = False\<rparr> e1 # rest1
      \<and> (e1 = None \<longrightarrow>
           (\<exists>e2 rest2. rest1 = ELog LInfo
               # EPull p \<lparr>pl_RemoteName = remote_Name source, pl_ReferenceName = ref_Name r,
                           pl_SingleBranch = True, pl_Force = True\<rparr> e2 # rest2
             \<and> (e2 = None \<or> e2 = Some NoErrAlreadyUpToDate \<longrightarrow>
                  (\<exists>e3 rest3. rest2 = ELog LInfo
                      # EReset p \<lparr>rs_Commit = ref_Hash l, rs_Mode = HardReset\<rparr> e3 # rest3))))))"
    unfolding main_syncBranch_def main_createLocal_def main_switchLocal_def main_pullResetPush_def
    by (intro post_steps post_bnd_getLocal)
       (use assms(3) in \<open>auto simp: post_def switchOptions_def pullOptions_def resetOptions_def\<close>)
  then have "\<forall>p bs1 bs2 rest. events (main_syncBranch g repoSync rs r w)
         = EWorktree p None # EBranches p (Inr bs1) # EBranches p (Inr bs2) # rest
       \<longrightarrow> lastNamed (ref_Name r) bs2 = Some l \<longrightarrow>
     (\<exists>e1 rest1. rest = ELog LInfo
        # ECheckout p \<lparr>co_Hash = ZeroHash, co_Branch = ref_Name l,
                        co_Create = False, co_Force = True, co_Keep = False\<rparr> e1 # rest1
      \<and> (e1 = None \<longrightarrow>
           (\<exists>e2 rest2. rest1 = ELog LInfo
               # EPull p \<lparr>pl_RemoteName = remote_Name source, pl_ReferenceName = ref_Name r,
                           pl_SingleBranch = True, pl_Force = True\<rparr> e2 # rest2
             \<and> (e2 = None \<or> e2 = Some NoErrAlreadyUpToDate \<longrightarrow>
                  (\<exists>e3 rest3. rest2 = ELog LInfo
                      # EReset p \<lparr>rs_Commit = ref_Hash l, rs_Mode = HardReset\<rparr> e3 # rest3)))))"
    unfolding post_def .
  from this[rule_format, OF assms(1,2)] show ?thesis .
qed

text \<open>
  C1. The order of the update path is as the claim has it, but the commit the local branch
  is at before the push is not the remote branch's: the reset takes the branch back to the
  hash it had before the pull. On a second run, with the local \<open>master\<close> at \<open>0ld999\<close> and
  \<open>origin\<close> advertising \<open>master\<close> at \<open>abc123\<close>, the calls are the forced checkout of the
  existing branch, the single-branch forced pull, the hard reset to \<open>0ld999\<close> and the push;
  the local branch is at \<open>0ld999\<close> when it is pushed, while the remote listing gave
  \<open>abc123\<close>.
\<close>

theorem update_path_resets_to_stale_commit:
  "calls (events (main_syncBranch sim readme foo (master ''abc123'') behind))
     = [EWorktree ''local/repos/foo'' None,
        EBranches ''local/repos/foo'' (Inr [master ''0ld999'']),
        EBranches ''local/repos/foo'' (Inr [master ''0ld999'']),
        ECheckout ''local/repos/foo''
          \<lparr>co_Hash = ZeroHash, co_Branch = ''refs/heads/master'',
           co_Create = False, co_Force = True, co_Keep = False\<rparr> None,
        EPull ''local/repos/foo''
          \<lparr>pl_RemoteName = ''origin'', pl_ReferenceName = ''refs/heads/master'',
           pl_SingleBranch = True, pl_Force = True\<rparr> None,
        EReset ''local/repos/foo'' \<lparr>rs_Commit = ''0ld999'', rs_Mode = HardReset\<rparr> None,
        EPush ''local/repos/foo''
          \<lparr>ps_RemoteName = ''github'', ps_RefSpecs = [''+refs/heads/master:refs/heads/main''],
           ps_Force = True, ps_Atomic = True, ps_FollowTags = False\<rparr> None,
        EStatus ''local/repos/foo'' None]
   \<and> w_heads (final (main_syncBranch sim readme foo (master ''abc123'') behind))
       = [master ''0ld999'']
   \<and> listed (events (main sim readme behind)) = [master ''abc123'']
   \<and> outcome (main sim readme behind) = Ret ()"
  by code_simp


section \<open>One action and one push for each remote branch, then the tags\<close>





section \<open>The tags are pushed after the branches, unless the run has ended\<close>

text \<open>
  C9, as the program has it. A run over one repository either halts before the tag stage,
  and then no tag is asked for or pushed; or it asks for the tags once, after every call of
  the earlier stages, none of which gave a fatal result. If asking fails the run exits.
  Otherwise the calls that follow are pushes of the tags returned, one each and in their
  order, as far as the run gets: to the target remote, forced, with the single ref-spec
  \<open>+refs/tags/<short name>:refs/tags/<short name>\<close>, in which the branch mapping has no
  part; and the run returns exactly when every tag was pushed and no push gave a fatal
  result. So a fatal result of an earlier stage, a failed branch push for one, ends the run
  with no tag pushed; and in a run that returns every tag is pushed after all the branch
  actions, each push succeeding or finding the tag up to date, whichever branches were
  created or updated and also when there was none.
\<close>

theorem tags_pushed_unless_halted:
  "((outcome (main_repo g repoSync rs w) \<noteq> Ret ()
      \<and> list_all (\<lambda>e. stage_of e \<noteq> Some Tagging) (events (main_repo g repoSync rs w)))
   \<or> (\<exists>pre x fin.
        events (main_repo g repoSync rs w) = pre @ ETags (repo_Path rs) x # fin
      \<and> list_all (\<lambda>e. stage_of e \<noteq> Some Tagging \<and> \<not> fatal_event e) pre
      \<and> list_all (\<lambda>e. stage_of e = None \<or> stage_of e = Some Tagging) fin
      \<and> (case x of
            Inl err \<Rightarrow> fin = [ELog LError] \<and> outcome (main_repo g repoSync rs w) = Exit 1
          | Inr tags \<Rightarrow>
              length (calls fin) \<le> length tags
            \<and> list_all2 (\<lambda>t e. \<exists>target err. TargetRemote rs = Some target
                  \<and> e = EPush (repo_Path rs)
                          \<lparr>ps_RemoteName = remote_Name target,
                           ps_RefSpecs = [''+refs/tags/'' @ Short (ref_Name t)
                                            @ '':refs/tags/'' @ Short (ref_Name t)],
                           ps_Force = True, ps_Atomic = False, ps_FollowTags = True\<rparr> err)
                (take (length (calls fin)) tags) (calls fin)
            \<and> ((outcome (main_repo g repoSync rs w) = Ret ())
                = (length (calls fin) = length tags
                   \<and> list_all (\<lambda>e. \<not> fatal_event e) fin)))))
 \<and> (list_ex (\<lambda>e. fatal_event e \<and> stage_of e \<noteq> Some Tagging)
        (events (main_repo g repoSync rs w))
      \<longrightarrow> outcome (main_repo g repoSync rs w) \<noteq> Ret ()
        \<and> list_all (\<lambda>e. stage_of e \<noteq> Some Tagging) (events (main_repo g repoSync rs w)))
 \<and> (outcome (main_repo g repoSync rs w) = Ret () \<longrightarrow>
      (\<exists>pre tags fin.
          events (main_repo g repoSync rs w) = pre @ ETags (repo_Path rs) (Inr tags) # fin
        \<and> list_all (\<lambda>e. stage_of e \<noteq> Some Tagging) pre
        \<and> list_all2 (\<lambda>t e. \<exists>target err. TargetRemote rs = Some target
              \<and> e = EPush (repo_Path rs)
                      \<lparr>ps_RemoteName = remote_Name target,
                       ps_RefSpecs = [''+refs/tags/'' @ Short (ref_Name t) @ '':refs/tags/''
                                        @ Short (ref_Name t)],
                       ps_Force = True, ps_Atomic = False, ps_FollowTags = True\<rparr> err
              \<and> (err = None \<or> err = Some NoErrAlreadyUpToDate))
            tags (calls fin)))"
  (is "?A \<and> ?B \<and> ?C")
proof (intro conjI)
  show a: ?A
    by (rule repo_tags_run[of g repoSync rs w, unfolded tagPushOptions_def tagsRefSpec_def])
  show ?B
  proof
    assume f: "list_ex (\<lambda>e. fatal_event e \<and> stage_of e \<noteq> Some Tagging)
        (events (main_repo g repoSync rs w))"
    from repo_tags_run[of g repoSync rs w] no_early_fatal f
    show "outcome (main_repo g repoSync rs w) \<noteq> Ret ()
        \<and> list_all (\<lambda>e. stage_of e \<noteq> Some Tagging) (events (main_repo g repoSync rs w))"
      by blast
  qed
  show ?C
    using tags_after_Ret[of g repoSync rs w, unfolded tagPushOptions_def tagsRefSpec_def]
    by blast
qed

text \<open>
  A source remote without branches: no branch action, and both local tags are pushed. And
  a branch push that fails: the run ends there and the tag stage is never entered.
\<close>

theorem tags_pushed_unless_halted_witness:
  "outcome (main_repo sim readme foo tags_only) = Ret ()
   \<and> listed (events (main_repo sim readme foo tags_only)) = []
   \<and> actions (events (main_repo sim readme foo tags_only))
       = [PushTag [''+refs/tags/v1:refs/tags/v1''], PushTag [''+refs/tags/v2:refs/tags/v2'']]
   \<and> (\<exists>pre tags fin.
        events (main_repo sim readme foo tags_only)
          = pre @ ETags (repo_Path foo) (Inr tags) # fin
      \<and> list_all (\<lambda>e. stage_of e \<noteq> Some Tagging) pre
      \<and> list_all2 (\<lambda>t e. \<exists>target err. TargetRemote foo = Some target
            \<and> e = EPush (repo_Path foo)
                    \<lparr>ps_RemoteName = remote_Name target,
                     ps_RefSpecs = [''+refs/tags/'' @ Short (ref_Name t) @ '':refs/tags/''
                                      @ Short (ref_Name t)],
                     ps_Force = True, ps_Atomic = False, ps_FollowTags = True\<rparr> err
            \<and> (err = None \<or> err = Some NoErrAlreadyUpToDate))
          tags (calls fin))
   \<and> list_ex (\<lambda>e. fatal_event e \<and> stage_of e \<noteq> Some Tagging)
        (events (main_repo sim_no_create readme foo fresh_clone))
   \<and> outcome (main_repo sim_no_create readme foo fresh_clone) \<noteq> Ret ()
   \<and> list_all (\<lambda>e. stage_of e \<noteq> Some Tagging)
        (events (main_repo sim_no_create readme foo fresh_clone))"
proof -
  have out: "outcome (main_repo sim readme foo tags_only) = Ret ()"
    by code_simp
  have ls: "listed (events (main_repo sim readme foo tags_only)) = []"
    by code_simp
  have acts: "actions (events (main_repo sim readme foo tags_only))
       = [PushTag [''+refs/tags/v1:refs/tags/v1''], PushTag [''+refs/tags/v2:refs/tags/v2'']]"
    by code_simp
  have f: "list_ex (\<lambda>e. fatal_event e \<and> stage_of e \<noteq> Some Tagging)
        (events (main_repo sim_no_create readme foo fresh_clone))"
    by code_simp
  note t1 = tags_pushed_unless_halted[of sim readme foo tags_only,
      THEN conjunct2, THEN conjunct2, rule_format, OF out]
  note t2 = tags_pushed_unless_halted[of sim_no_create readme foo fresh_clone,
      THEN conjunct2, THEN conjunct1, rule_format, OF f]
  from out ls acts t1 f t2 show ?thesis by blast
qed

text \<open>
  C9 as the specification words it, that every tag is pushed regardless of the outcomes of
  the branch reconciliation, fails: on a Git that cannot create the target remote the push
  of \<open>master\<close> fails, the process exits with status 1, and the one local tag is neither
  asked for nor pushed.
\<close>

theorem tags_not_pushed_after_failed_branch_push:
  "w_tags fresh_clone = [v1]
   \<and> outcome (main_repo sim_no_create readme foo fresh_clone) = Exit 1
   \<and> actions (events (main_repo sim_no_create readme foo fresh_clone))
       = [CreateLocal ''refs/heads/master'' ''abc123'',
          PushBranch [''+refs/heads/master:refs/heads/main'']]
   \<and> list_all (\<lambda>e. stage_of e \<noteq> Some Tagging)
        (events (main_repo sim_no_create readme foo fresh_clone))
   \<and> w_tags (final (main_repo sim_no_create readme foo fresh_clone)) = [v1]"
  by code_simp

section \<open>Only the source remote's branches are reconciled\<close>

text \<open>
  C7, as the program has it. In every run over one repository: a remote is listed only if
  its configured name is the configured source remote's name; the remotes fetched are, in
  order, remotes the \<open>Remotes\<close> call of the run returned, from the first on, and all of
  them when the run returns (that call comes before any creation of the target remote, so
  a remote the run itself creates is not among them); and every create, update and branch
  push, whether the run returns or not, is that of a branch some listing of a remote of
  the source remote's name returned. And when none of the remotes the \<open>Remotes\<close> call
  returned bears the source remote's name (source and target being configured), nothing
  is listed, no call of the branch stage is made, and the run returns unless a Git call
  reports a fatal error.
\<close>

theorem only_source_branches_reconciled:
  "(\<forall>p c x. EList p c x \<in> set (events (main_repo g repoSync rs w)) \<longrightarrow>
       p = repo_Path rs \<and> (\<exists>source. SourceRemote rs = Some source \<and> rc_Name c = remote_Name source))
 \<and> prefix (fetched (events (main_repo g repoSync rs w)))
      (repo_remotes (events (main_repo g repoSync rs w)))
 \<and> (\<forall>pre c e rest.
        events (main_repo g repoSync rs w) = pre @ ECreateRemote (repo_Path rs) c e # rest
        \<longrightarrow> (\<exists>remotes. ERemotes (repo_Path rs) (Inr remotes) \<in> set pre))
 \<and> (outcome (main_repo g repoSync rs w) = Ret () \<longrightarrow>
       (\<exists>remotes. ERemotes (repo_Path rs) (Inr remotes) \<in> set (events (main_repo g repoSync rs w))
          \<and> repo_remotes (events (main_repo g repoSync rs w)) = remotes
          \<and> fetched (events (main_repo g repoSync rs w)) = remotes))
 \<and> (\<forall>a\<in>set (actions (events (main_repo g repoSync rs w))).
        (\<exists>specs. a = PushTag specs)
      \<or> (\<exists>source c refs r. SourceRemote rs = Some source \<and> rc_Name c = remote_Name source
            \<and> EList (repo_Path rs) c (Inr refs) \<in> set (events (main_repo g repoSync rs w))
            \<and> r \<in> set refs \<and> IsBranch (ref_Name r)
            \<and> a \<in> {CreateLocal (ref_Name r) (ref_Hash r), UpdateLocal (ref_Name r),
                   PushBranch [''+'' @ ref_Name r @ '':refs/heads/''
                                 @ mapBranch repoSync (Short (ref_Name r))]}))
 \<and> (\<forall>source target. SourceRemote rs = Some source \<and> TargetRemote rs = Some target
       \<and> (\<forall>c\<in>set (repo_remotes (events (main_repo g repoSync rs w))).
             rc_Name c \<noteq> remote_Name source) \<longrightarrow>
       list_all (\<lambda>e. stage_of e \<noteq> Some Branching \<and> \<not> is_list e)
         (events (main_repo g repoSync rs w))
     \<and> (list_all (\<lambda>e. \<not> fatal_event e) (events (main_repo g repoSync rs w))
          \<longrightarrow> outcome (main_repo g repoSync rs w) = Ret ()))"
  (is "?A \<and> ?P \<and> ?O \<and> ?B \<and> ?D \<and> ?C")
proof (intro conjI)
  let ?es = "events (main_repo g repoSync rs w)"
  show ?A using list_from_source[of _ _ _ g repoSync rs w] by blast
  show ?P using repo_fetched_prefix[of g repoSync rs w] by (simp add: post_def)
  show ?O using remotes_before_create[of g repoSync rs w] by blast
  show ?C using repo_no_source[of rs _ _ g repoSync w] by (simp add: post_def)
  show ?B
  proof
    assume out: "outcome (main_repo g repoSync rs w) = Ret ()"
    from out obtain remotes bts w1 w2 w3 w4 where
      ev: "?es
         = [ELog LInfo, EPlainOpen (repo_Path rs) None, ERemotes (repo_Path rs) (Inr remotes)]
           @ events (main_addTargetRemote g rs w1)
           @ events (main_fetchAll g rs remotes [] w2)
           @ [ELog LInfo]
           @ events (main_syncBranches g repoSync rs bts w3)
           @ events (main_pushTags g rs w4)"
      and ft: "outcome (main_fetchAll g rs remotes [] w2) = Ret bts"
      by (rule repo_Ret_shape)
    from fetchAll_Ret[OF ft] have
      fe: "fetched (events (main_fetchAll g rs remotes [] w2)) = remotes" by simp
    have f: "fetched ?es = remotes"
      by (simp add: ev fe fetched_simps addTarget_quiet syncBranches_no_fetched pushTags_no_fetched)
    have rr: "repo_remotes ?es = remotes"
      by (simp add: ev repo_remotes_simps addTarget_no_remotes fetchAll_no_remotes
            syncBranches_no_remotes pushTags_no_remotes)
    have mem: "ERemotes (repo_Path rs) (Inr remotes) \<in> set ?es"
      by (simp add: ev)
    from mem rr f show "\<exists>remotes. ERemotes (repo_Path rs) (Inr remotes) \<in> set ?es
          \<and> repo_remotes ?es = remotes \<and> fetched ?es = remotes"
      by blast
  qed
  show ?D
  proof
    fix a
    assume a: "a \<in> set (actions ?es)"
    show "(\<exists>specs. a = PushTag specs)
      \<or> (\<exists>source c refs r. SourceRemote rs = Some source \<and> rc_Name c = remote_Name source
            \<and> EList (repo_Path rs) c (Inr refs) \<in> set ?es
            \<and> r \<in> set refs \<and> IsBranch (ref_Name r)
            \<and> a \<in> {CreateLocal (ref_Name r) (ref_Hash r), UpdateLocal (ref_Name r),
                   PushBranch [''+'' @ ref_Name r @ '':refs/heads/''
                                 @ mapBranch repoSync (Short (ref_Name r))]})"
    proof (cases "\<exists>specs. a = PushTag specs")
      case True
      then show ?thesis by blast
    next
      case False
      with a repo_actions_listed[of g repoSync rs w, unfolded post_def] obtain r where
        r: "r \<in> set (listed ?es)"
           "a \<in> {CreateLocal (ref_Name r) (ref_Hash r), UpdateLocal (ref_Name r),
                   PushBranch [''+'' @ ref_Name r @ '':refs/heads/''
                                 @ mapBranch repoSync (Short (ref_Name r))]}"
        by blast
      from listed_from[OF r(1)] obtain p c refs where
        l: "EList p c (Inr refs) \<in> set ?es" "r \<in> set refs" "IsBranch (ref_Name r)" by blast
      from list_from_source[OF l(1)] obtain source where
        "p = repo_Path rs" "SourceRemote rs = Some source" "rc_Name c = remote_Name source"
        by blast
      with l r(2) show ?thesis by blast
    qed
  qed
qed

text \<open>
  A clone whose only remote is the target: it is fetched, nothing is listed, no call of the
  branch stage is made and the run returns. And a clone whose target remote has a branch of
  its own: both remotes are fetched, and the only branch created and pushed is the one the
  source remote advertises. And a run that a failing branch push ends: the branch it
  created and tried to push is the one the source remote advertises.
\<close>

theorem only_source_branches_reconciled_witness:
  "outcome (main_repo sim readme foo no_source) = Ret ()
   \<and> repo_remotes (events (main_repo sim readme foo no_source)) = [github]
   \<and> fetched (events (main_repo sim readme foo no_source)) = [github]
   \<and> list_all (\<lambda>e. stage_of e \<noteq> Some Branching \<and> \<not> is_list e)
        (events (main_repo sim readme foo no_source))
   \<and> outcome (main_repo sim readme foo target_has_branch) = Ret ()
   \<and> fetched (events (main_repo sim readme foo target_has_branch)) = [origin, github]
   \<and> actions (events (main_repo sim readme foo target_has_branch))
       = [CreateLocal ''refs/heads/master'' ''abc123'',
          PushBranch [''+refs/heads/master:refs/heads/main''],
          PushTag [''+refs/tags/v1:refs/tags/v1'']]
   \<and> (\<exists>source c refs r. SourceRemote foo = Some source \<and> rc_Name c = remote_Name source
         \<and> EList (repo_Path foo) c (Inr refs)
              \<in> set (events (main_repo sim readme foo target_has_branch))
         \<and> r \<in> set refs \<and> IsBranch (ref_Name r)
         \<and> CreateLocal ''refs/heads/master'' ''abc123''
             \<in> {CreateLocal (ref_Name r) (ref_Hash r), UpdateLocal (ref_Name r),
                 PushBranch [''+'' @ ref_Name r @ '':refs/heads/''
                               @ mapBranch readme (Short (ref_Name r))]})
   \<and> outcome (main_repo sim_no_create readme foo fresh_clone) = Exit 1
   \<and> (\<exists>source c refs r. SourceRemote foo = Some source \<and> rc_Name c = remote_Name source
         \<and> EList (repo_Path foo) c (Inr refs)
              \<in> set (events (main_repo sim_no_create readme foo fresh_clone))
         \<and> r \<in> set refs \<and> IsBranch (ref_Name r)
         \<and> PushBranch [''+refs/heads/master:refs/heads/main'']
             \<in> {CreateLocal (ref_Name r) (ref_Hash r), UpdateLocal (ref_Name r),
                 PushBranch [''+'' @ ref_Name r @ '':refs/heads/''
                               @ mapBranch readme (Short (ref_Name r))]})"
proof -
  let ?X = "main_repo sim readme foo no_source"
  let ?Y = "main_repo sim readme foo target_has_branch"
  have o1: "outcome ?X = Ret ()" by code_simp
  have r1: "repo_remotes (events ?X) = [github]" by code_simp
  have f1: "fetched (events ?X) = [github]" by code_simp
  have s: "SourceRemote foo = Some \<lparr>remote_Name = ''origin'', remote_Url = []\<rparr>"
    by (simp add: foo_def)
  have t: "TargetRemote foo
      = Some \<lparr>remote_Name = ''github'', remote_Url = ''git@github.com:bar/foo.git''\<rparr>"
    by (simp add: foo_def)
  have h1: "\<forall>c\<in>set (repo_remotes (events ?X)).
      rc_Name c \<noteq> remote_Name \<lparr>remote_Name = ''origin'', remote_Url = []\<rparr>"
    unfolding r1 by (simp add: github_def)
  from only_source_branches_reconciled[of sim readme foo no_source] s t h1
  have n1: "list_all (\<lambda>e. stage_of e \<noteq> Some Branching \<and> \<not> is_list e) (events ?X)"
    by blast
  have o2: "outcome ?Y = Ret ()" by code_simp
  have f2: "fetched (events ?Y) = [origin, github]" by code_simp
  have a2: "actions (events ?Y)
       = [CreateLocal ''refs/heads/master'' ''abc123'',
          PushBranch [''+refs/heads/master:refs/heads/main''],
          PushTag [''+refs/tags/v1:refs/tags/v1'']]" by code_simp
  have m: "CreateLocal ''refs/heads/master'' ''abc123'' \<in> set (actions (events ?Y))"
    unfolding a2 by simp
  from only_source_branches_reconciled[of sim readme foo target_has_branch] o2 m
  have b2: "\<exists>source c refs r. SourceRemote foo = Some source \<and> rc_Name c = remote_Name source
         \<and> EList (repo_Path foo) c (Inr refs) \<in> set (events ?Y)
         \<and> r \<in> set refs \<and> IsBranch (ref_Name r)
         \<and> CreateLocal ''refs/heads/master'' ''abc123''
             \<in> {CreateLocal (ref_Name r) (ref_Hash r), UpdateLocal (ref_Name r),
                 PushBranch [''+'' @ ref_Name r @ '':refs/heads/''
                               @ mapBranch readme (Short (ref_Name r))]}"
    by blast
  let ?Z = "main_repo sim_no_create readme foo fresh_clone"
  have o3: "outcome ?Z = Exit 1" by code_simp
  have m3: "PushBranch [''+refs/heads/master:refs/heads/main''] \<in> set (actions (events ?Z))"
    by code_simp
  from only_source_branches_reconciled[of sim_no_create readme foo fresh_clone] m3
  have b3: "\<exists>source c refs r. SourceRemote foo = Some source \<and> rc_Name c = remote_Name source
         \<and> EList (repo_Path foo) c (Inr refs) \<in> set (events ?Z)
         \<and> r \<in> set refs \<and> IsBranch (ref_Name r)
         \<and> PushBranch [''+refs/heads/master:refs/heads/main'']
             \<in> {CreateLocal (ref_Name r) (ref_Hash r), UpdateLocal (ref_Name r),
                 PushBranch [''+'' @ ref_Name r @ '':refs/heads/''
                               @ mapBranch readme (Short (ref_Name r))]}"
    by blast
  from o1 r1 f1 n1 o2 f2 a2 b2 o3 b3 show ?thesis by blast
qed

text \<open>
  C7 as the specification words it, that every remote of the repository is fetched, fails
  on the first run of the README's configuration: the run returns, it has created the
  target remote \<open>github\<close>, which the repository then has, and has fetched \<open>origin\<close> only.
\<close>

theorem created_target_remote_is_not_fetched:
  "outcome (main_repo sim readme foo fresh_clone) = Ret ()
   \<and> map fst (w_remotes (final (main_repo sim readme foo fresh_clone))) = [origin, github]
   \<and> fetched (events (main_repo sim readme foo fresh_clone)) = [origin]
   \<and> github \<notin> set (fetched (events (main_repo sim readme foo fresh_clone)))"
  by code_simp



section \<open>The listing comes after the fetch\<close>

text \<open>
  C5, as the program has it. In every run, each remote listing comes right after a fetch
  of the same remote of the same repository, and that fetch returned \<open>nil\<close> or
  \<open>NoErrAlreadyUpToDate\<close>: the branches to reconcile are read from the remote once its
  fetch has been applied locally.
\<close>

theorem listing_follows_fetch:
  "\<forall>pre p c x rest. events (main g repoSync w) = pre @ EList p c x # rest \<longrightarrow>
     (\<exists>pre' e. pre = pre' @ [EFetch p c e] \<and> (e = None \<or> e = Some NoErrAlreadyUpToDate))"
proof (intro allI impI)
  fix pre p c x rest
  assume ev: "events (main g repoSync w) = pre @ EList p c x # rest"
  have "fetch_then_list None (events (main g repoSync w))"
    unfolding main_def by (rule repos_ftl)
  from ftl_explicit[OF this ev] obtain e where
    e: "(if pre = [] then None else Some (last pre)) = Some (EFetch p c e)"
       "e = None \<or> e = Some NoErrAlreadyUpToDate" by blast
  have ne: "pre \<noteq> []" using e(1) by (cases "pre = []") simp_all
  with e(1) have "last pre = EFetch p c e" by simp
  with ne have "pre = butlast pre @ [EFetch p c e]" using append_butlast_last_id by metis
  with e(2) show "\<exists>pre' e. pre = pre' @ [EFetch p c e] \<and> (e = None \<or> e = Some NoErrAlreadyUpToDate)"
    by blast
qed

text \<open>In the run on the fresh clone the listing of \<open>origin\<close> follows its fetch.\<close>

theorem listing_follows_fetch_witness:
  "\<exists>pre' e rest.
      events (main sim readme fresh_clone)
        = pre' @ EFetch ''local/repos/foo'' origin e
            # EList ''local/repos/foo'' origin (Inr [master ''abc123'']) # rest
    \<and> (e = None \<or> e = Some NoErrAlreadyUpToDate)"
proof -
  have "EList ''local/repos/foo'' origin (Inr [master ''abc123''])
          \<in> set (events (main sim readme fresh_clone))"
    by code_simp
  then obtain pre rest where
    ev: "events (main sim readme fresh_clone)
           = pre @ EList ''local/repos/foo'' origin (Inr [master ''abc123'']) # rest"
    by (auto dest: split_list)
  from listing_follows_fetch[rule_format, OF ev] obtain pre' e where
    "pre = pre' @ [EFetch ''local/repos/foo'' origin e]"
    "e = None \<or> e = Some NoErrAlreadyUpToDate" by blast
  with ev show ?thesis by auto
qed

text \<open>
  C5 as the specification words it, that the listing used for reconciliation is made
  before any fetch, fails: in the run on the fresh clone of the README's configuration
  the only fetch of \<open>origin\<close> precedes the only listing of it.
\<close>

theorem listing_is_not_a_pre_fetch_snapshot:
  "\<not> listed_before_fetched (events (main sim readme fresh_clone))
   \<and> filter (\<lambda>e. is_fetch e \<or> is_list e) (events (main sim readme fresh_clone))
      = [EFetch ''local/repos/foo'' origin None,
         EList ''local/repos/foo'' origin (Inr [master ''abc123''])]"
  by code_simp

section \<open>Which errors end the run\<close>

text \<open>
  C6, as the program has it. In every run: nothing follows a fatal result but the error
  log line, and a run with a fatal result ends with a non-zero exit status. The fatal
  results are the errors of every call except the lookup and the creation of the target
  remote, \<open>NoErrAlreadyUpToDate\<close> from a fetch, a pull or a push not being one. And
  up to date counts as success: on a Git that answers \<open>nil\<close> wherever the given one
  answers \<open>NoErrAlreadyUpToDate\<close> to a fetch, a pull or a push, the run ends the same
  way, leaves the same world and makes the same calls with the same results otherwise.
\<close>

theorem fatal_errors_end_the_run:
  "stops_at_fatal (events (main g repoSync w))
   \<and> (list_ex fatal_event (events (main g repoSync w))
        \<longrightarrow> exit_code (outcome (main g repoSync w)) \<noteq> 0)
   \<and> outcome (main (up_to_date_ok g) repoSync w) = outcome (main g repoSync w)
   \<and> final (main (up_to_date_ok g) repoSync w) = final (main g repoSync w)
   \<and> calls (events (main (up_to_date_ok g) repoSync w))
        = map ok_event (calls (events (main g repoSync w)))"
proof -
  have "ends_well (outcome (main g repoSync w)) (events (main g repoSync w))"
    using repos_ends_well[of g repoSync "map snd (Repos repoSync)" w]
    by (simp add: post_def main_def)
  from ends_well_result[OF this]
  have a: "stops_at_fatal (events (main g repoSync w))"
    and b: "list_ex fatal_event (events (main g repoSync w))
        \<longrightarrow> exit_code (outcome (main g repoSync w)) \<noteq> 0"
    by simp_all
  have "agree (main (up_to_date_ok g) repoSync) (main g repoSync)"
    unfolding main_def by (rule repos_agree)
  then have c: "outcome (main (up_to_date_ok g) repoSync w) = outcome (main g repoSync w)"
    "final (main (up_to_date_ok g) repoSync w) = final (main g repoSync w)"
    "calls (events (main (up_to_date_ok g) repoSync w))
        = map ok_event (calls (events (main g repoSync w)))"
    by (simp_all add: agree_def)
  from a b c show ?thesis by blast
qed

text \<open>
  A push to a remote that does not exist ends the run with a non-zero status; and the run
  in which every fetch and push is up to date returns, also when these answer \<open>nil\<close>.
\<close>

theorem fatal_errors_end_the_run_witness:
  "list_ex fatal_event (events (main sim_no_create readme fresh_clone))
   \<and> stops_at_fatal (events (main sim_no_create readme fresh_clone))
   \<and> exit_code (outcome (main sim_no_create readme fresh_clone)) \<noteq> 0
   \<and> list_ex (\<lambda>e. e \<noteq> ok_event e) (events (main sim_up_to_date readme mirror_ready))
   \<and> outcome (main sim_up_to_date readme mirror_ready) = Ret ()
   \<and> outcome (main (up_to_date_ok sim_up_to_date) readme mirror_ready) = Ret ()"
proof -
  have f: "list_ex fatal_event (events (main sim_no_create readme fresh_clone))"
    by code_simp
  have u: "list_ex (\<lambda>e. e \<noteq> ok_event e) (events (main sim_up_to_date readme mirror_ready))"
    by code_simp
  have o: "outcome (main sim_up_to_date readme mirror_ready) = Ret ()"
    by code_simp
  from fatal_errors_end_the_run[of sim_no_create readme fresh_clone] f
  have a: "stops_at_fatal (events (main sim_no_create readme fresh_clone))"
    "exit_code (outcome (main sim_no_create readme fresh_clone)) \<noteq> 0"
    by simp_all
  from fatal_errors_end_the_run[of sim_up_to_date readme mirror_ready] o
  have b: "outcome (main (up_to_date_ok sim_up_to_date) readme mirror_ready) = Ret ()"
    by simp
  from f u o a b show ?thesis by blast
qed

text \<open>
  C6 as the specification words it, that every error of a Git operation other than up to
  date ends the run with a non-zero status, fails for the target remote: here its lookup
  fails, its creation fails too, and the run goes on to its end and exits with status 0.
\<close>

theorem target_remote_errors_do_not_end_the_run:
  "ERemote ''local/repos/foo'' ''github'' (Some (GitError ''config unreadable''))
     \<in> set (events (main sim_no_lookup readme mirror_ready))
   \<and> ECreateRemote ''local/repos/foo'' github (Some (GitError ''remote already exists''))
     \<in> set (events (main sim_no_lookup readme mirror_ready))
   \<and> list_ex error_event (events (main sim_no_lookup readme mirror_ready))
   \<and> actions (events (main sim_no_lookup readme mirror_ready))
       = [CreateLocal ''refs/heads/master'' ''abc123'',
          PushBranch [''+refs/heads/master:refs/heads/main''],
          PushTag [''+refs/tags/v1:refs/tags/v1'']]
   \<and> exit_code (outcome (main sim_no_lookup readme mirror_ready)) = 0"
  by code_simp

end
